theory Spec2Isabelle
  imports Main "HOL-Library.Word"
begin

section \<open>Values shared by the whole program\<close>

text \<open>
  \<^verbatim>\<open>uuid.UUID\<close> is a 16-byte array, \<^verbatim>\<open>time.Time\<close> is read as a number of
  nanoseconds, and a Go \<^verbatim>\<open>error\<close> made by \<^verbatim>\<open>errors.New(msg)\<close> is its message.
\<close>

type_synonym uuid = "128 word"

type_synonym Time = int

datatype error = errors_New string

section \<open>Package entities\<close>

subsection \<open>Domain events\<close>

text \<open>
  The implementations of the interface \<^verbatim>\<open>DomainEvent\<close> for the User and the Product
  aggregate, one constructor per struct, the fields in the order of the struct.
  (\<^verbatim>\<open>OrderCreatedEvent\<close> and \<^verbatim>\<open>OrderCancelledEvent\<close> belong to the Order aggregate,
  which is not modelled here.)
\<close>

datatype DomainEvent =
    UserCreatedEvent uuid string string Time
  | UserDeletedEvent uuid Time
  | ProductCreatedEvent uuid string string uuid Time
  | ProductDeletedEvent uuid Time

fun OccurredOn :: "DomainEvent \<Rightarrow> Time" where
  "OccurredOn (UserCreatedEvent uid email username t) = t"
| "OccurredOn (UserDeletedEvent uid t) = t"
| "OccurredOn (ProductCreatedEvent pid name sku createdBy t) = t"
| "OccurredOn (ProductDeletedEvent pid t) = t"

fun EventType :: "DomainEvent \<Rightarrow> string" where
  "EventType (UserCreatedEvent uid email username t) = ''UserCreated''"
| "EventType (UserDeletedEvent uid t) = ''UserDeleted''"
| "EventType (ProductCreatedEvent pid name sku createdBy t) = ''ProductCreated''"
| "EventType (ProductDeletedEvent pid t) = ''ProductDeleted''"

subsection \<open>AggregateRoot: the event buffer\<close>

record AggregateRoot =
  domainEvents :: "DomainEvent list"

definition AddDomainEvent :: "DomainEvent \<Rightarrow> AggregateRoot \<Rightarrow> AggregateRoot" where
  "AddDomainEvent event ar = ar\<lparr>domainEvents := domainEvents ar @ [event]\<rparr>"

definition DomainEvents :: "AggregateRoot \<Rightarrow> DomainEvent list" where
  "DomainEvents ar = domainEvents ar"

text \<open>\<^verbatim>\<open>ar.domainEvents = nil\<close>: the nil slice is the empty list.\<close>

definition ClearDomainEvents :: "AggregateRoot \<Rightarrow> AggregateRoot" where
  "ClearDomainEvents ar = ar\<lparr>domainEvents := []\<rparr>"

subsection \<open>Entities\<close>

record BaseEntity =
  ID :: uuid
  CreatedAt :: Time
  UpdatedAt :: Time
  DeletedAt :: "Time option"

text \<open>
  \<^verbatim>\<open>Profile\<close> and \<^verbatim>\<open>User\<close> embed \<^verbatim>\<open>BaseEntity\<close>: its fields and methods are promoted,
  which is what the extension of a record gives. \<^verbatim>\<open>User\<close> embeds \<^verbatim>\<open>AggregateRoot\<close>
  as well; that one is the field \<open>AggregateRoot\<close>, as in \<^verbatim>\<open>&user.AggregateRoot\<close>.
\<close>

record Profile = BaseEntity +
  UserID :: uuid
  Bio :: string
  Avatar :: string
  DateOfBirth :: "Time option"

record User = BaseEntity +
  AggregateRoot :: AggregateRoot
  Email :: string
  Username :: string
  FirstName :: string
  LastName :: string
  IsActive :: bool
  Profile :: "Profile option"

subsection \<open>The world outside the aggregate\<close>

text \<open>
  \<^verbatim>\<open>uuid.New()\<close> and \<^verbatim>\<open>time.Now()\<close> read the world: \<open>uuids\<close> and \<open>times\<close> hold
  the values their successive calls return and \<open>uuid_calls\<close>, \<open>time_calls\<close> count the calls
  made so far. \<open>ext\<close> is the state of the collaborators behind the interfaces (the store
  behind the repository, whatever the handlers and the publisher keep), and \<open>trace\<close> is
  the list of calls the code has made to a collaborator, oldest first, each with what it
  returned.
\<close>

datatype call =
    Call_Handle DomainEvent "error option"
  | Call_Publish "DomainEvent list" "error option"
  | Call_Create User "error option"
  | Call_Update User "error option"
  | Call_GetByID uuid "User option" "error option"
  | Call_GetByIDIncludeDeleted uuid "User option" "error option"
  | Call_GetByEmail string "User option" "error option"
  | Call_GetByUsername string "User option" "error option"
  | Call_LoggerError string error

record 'w world =
  uuids :: "nat \<Rightarrow> uuid"
  uuid_calls :: nat
  times :: "nat \<Rightarrow> Time"
  time_calls :: nat
  ext :: 'w
  trace :: "call list"

definition uuid_New :: "'w world \<Rightarrow> uuid \<times> 'w world" where
  "uuid_New w = (uuids w (uuid_calls w), w\<lparr>uuid_calls := Suc (uuid_calls w)\<rparr>)"

definition time_Now :: "'w world \<Rightarrow> Time \<times> 'w world" where
  "time_Now w = (times w (time_calls w), w\<lparr>time_calls := Suc (time_calls w)\<rparr>)"

text \<open>The calls made between the world \<open>w\<close> and the later world \<open>w'\<close>.\<close>

definition new_calls :: "'w world \<Rightarrow> 'w world \<Rightarrow> call list" where
  "new_calls w w' = drop (length (trace w)) (trace w')"

subsection \<open>BaseEntity: the soft-delete state\<close>

definition IsDeleted :: "'a BaseEntity_scheme \<Rightarrow> bool" where
  "IsDeleted be = (DeletedAt be \<noteq> None)"

text \<open>\<^verbatim>\<open>now := time.Now(); be.DeletedAt = &now\<close>. No result, no check of the state before.\<close>

definition SoftDelete :: "'a BaseEntity_scheme \<Rightarrow> 'w world \<Rightarrow> 'a BaseEntity_scheme \<times> 'w world" where
  "SoftDelete be w = (let (now, w1) = time_Now w in (be\<lparr>DeletedAt := Some now\<rparr>, w1))"

text \<open>\<^verbatim>\<open>be.DeletedAt = nil\<close>. No result, no check of the state before.\<close>

definition Restore :: "'a BaseEntity_scheme \<Rightarrow> 'a BaseEntity_scheme" where
  "Restore be = be\<lparr>DeletedAt := None\<rparr>"

subsection \<open>User: factory and delete\<close>

text \<open>
  The composite literal evaluates \<^verbatim>\<open>uuid.New()\<close>, then \<^verbatim>\<open>time.Now()\<close> twice; the
  fields it does not name are zero values (\<^verbatim>\<open>DeletedAt\<close> and \<^verbatim>\<open>Profile\<close> nil, the buffer
  nil). The event is built after that, with a third reading of the clock.
\<close>

definition NewUser :: "string \<Rightarrow> string \<Rightarrow> string \<Rightarrow> string \<Rightarrow> 'w world \<Rightarrow> User \<times> 'w world" where
  "NewUser email username firstName lastName w =
     (let (uid, w1) = uuid_New w;
          (created, w2) = time_Now w1;
          (updated, w3) = time_Now w2;
          user = \<lparr>ID = uid, CreatedAt = created, UpdatedAt = updated, DeletedAt = None,
                  AggregateRoot = \<lparr>domainEvents = []\<rparr>,
                  Email = email, Username = username,
                  FirstName = firstName, LastName = lastName,
                  IsActive = True, Profile = None\<rparr>;
          (occurred, w4) = time_Now w3
      in (user\<lparr>AggregateRoot :=
                 AddDomainEvent (UserCreatedEvent (ID user) (Email user) (Username user) occurred)
                   (AggregateRoot user)\<rparr>,
          w4))"

text \<open>
  \<^verbatim>\<open>u.SoftDelete(); u.IsActive = false; u.AddDomainEvent(UserDeletedEvent{...})\<close>.
  The field \<^verbatim>\<open>Profile\<close> is not read and not written.
\<close>

definition Delete :: "User \<Rightarrow> 'w world \<Rightarrow> User \<times> 'w world" where
  "Delete u w =
     (let (u1, w1) = SoftDelete u w;
          u2 = u1\<lparr>IsActive := False\<rparr>;
          (occurred, w2) = time_Now w1
      in (u2\<lparr>AggregateRoot := AddDomainEvent (UserDeletedEvent (ID u2) occurred) (AggregateRoot u2)\<rparr>,
          w2))"

section \<open>Package events: the dispatcher\<close>

text \<open>
  The interfaces \<^verbatim>\<open>DomainEventHandler\<close> and \<^verbatim>\<open>DomainEventPublisher\<close>: an
  implementation is any pair of functions, \<^verbatim>\<open>Handle\<close> and \<^verbatim>\<open>Publish\<close> acting on the
  state \<open>ext\<close> of the collaborators and returning Go's \<^verbatim>\<open>error\<close> (\<open>None\<close> is nil).
  A handler is given the event by value and the publisher the slice of events, which it is
  taken to read only; neither is given the aggregate.
\<close>

record 'w DomainEventHandler =
  Handle :: "DomainEvent \<Rightarrow> 'w \<Rightarrow> error option \<times> 'w"
  CanHandle :: "DomainEvent \<Rightarrow> bool"

type_synonym 'w DomainEventPublisher = "DomainEvent list \<Rightarrow> 'w \<Rightarrow> error option \<times> 'w"

text \<open>\<open>publisher = None\<close> is the nil interface value.\<close>

record 'w DomainEventDispatcher =
  handlers :: "'w DomainEventHandler list"
  publisher :: "'w DomainEventPublisher option"

definition NewDomainEventDispatcher :: "'w DomainEventPublisher option \<Rightarrow> 'w DomainEventDispatcher" where
  "NewDomainEventDispatcher p = \<lparr>handlers = [], publisher = p\<rparr>"

definition RegisterHandler :: "'w DomainEventHandler \<Rightarrow> 'w DomainEventDispatcher \<Rightarrow> 'w DomainEventDispatcher" where
  "RegisterHandler handler d = d\<lparr>handlers := handlers d @ [handler]\<rparr>"

text \<open>A call through the interface: the collaborator runs on \<open>ext\<close>, the call is recorded.\<close>

definition call_Handle :: "'w DomainEventHandler \<Rightarrow> DomainEvent \<Rightarrow> 'w world \<Rightarrow> error option \<times> 'w world" where
  "call_Handle h event w =
     (let (err, x) = Handle h event (ext w)
      in (err, w\<lparr>ext := x, trace := trace w @ [Call_Handle event err]\<rparr>))"

definition call_Publish :: "'w DomainEventPublisher \<Rightarrow> DomainEvent list \<Rightarrow> 'w world \<Rightarrow> error option \<times> 'w world" where
  "call_Publish p events w =
     (let (err, x) = p events (ext w)
      in (err, w\<lparr>ext := x, trace := trace w @ [Call_Publish events err]\<rparr>))"

text \<open>
  The inner loop \<^verbatim>\<open>for _, handler := range d.handlers\<close> for one event: it returns at
  the first error.
\<close>

fun dispatch_event :: "'w DomainEventHandler list \<Rightarrow> DomainEvent \<Rightarrow> 'w world \<Rightarrow> error option \<times> 'w world" where
  "dispatch_event [] event w = (None, w)"
| "dispatch_event (h # hs) event w =
     (if CanHandle h event then
        (case call_Handle h event w of
           (Some err, w1) \<Rightarrow> (Some err, w1)
         | (None, w1) \<Rightarrow> dispatch_event hs event w1)
      else dispatch_event hs event w)"

text \<open>The outer loop \<^verbatim>\<open>for _, event := range events\<close>.\<close>

fun dispatch_all :: "'w DomainEventHandler list \<Rightarrow> DomainEvent list \<Rightarrow> 'w world \<Rightarrow> error option \<times> 'w world" where
  "dispatch_all hs [] w = (None, w)"
| "dispatch_all hs (event # events) w =
     (case dispatch_event hs event w of
        (Some err, w1) \<Rightarrow> (Some err, w1)
      | (None, w1) \<Rightarrow> dispatch_all hs events w1)"

text \<open>
  \<^verbatim>\<open>DispatchEvents\<close> is given \<^verbatim>\<open>*entities.AggregateRoot\<close> and clears it in place: the
  model returns the error and the aggregate root as it is left.
\<close>

definition DispatchEvents :: "'w DomainEventDispatcher \<Rightarrow> AggregateRoot \<Rightarrow> 'w world \<Rightarrow> (error option \<times> AggregateRoot) \<times> 'w world" where
  "DispatchEvents d aggregateRoot w =
     (let events = DomainEvents aggregateRoot in
      if length events = 0 then ((None, aggregateRoot), w)
      else
        (case dispatch_all (handlers d) events w of
           (Some err, w1) \<Rightarrow> ((Some err, aggregateRoot), w1)
         | (None, w1) \<Rightarrow>
             (case publisher d of
                Some p \<Rightarrow>
                  (case call_Publish p events w1 of
                     (Some err, w2) \<Rightarrow> ((Some err, aggregateRoot), w2)
                   | (None, w2) \<Rightarrow> ((None, ClearDomainEvents aggregateRoot), w2))
              | None \<Rightarrow> ((None, ClearDomainEvents aggregateRoot), w1))))"

section \<open>Package repositories: the interface UserRepository\<close>

text \<open>
  The methods of \<^verbatim>\<open>UserRepository\<close> that the aggregate service calls. A lookup returns
  Go's pair \<^verbatim>\<open>(*entities.User, error)\<close>: \<open>None\<close> is nil on either side, and the
  interface does not exclude any of the four combinations. The repository reads the
  aggregate it is handed by \<^verbatim>\<open>Create\<close> and \<^verbatim>\<open>Update\<close>.
\<close>

record 'w UserRepository =
  Create :: "User \<Rightarrow> 'w \<Rightarrow> error option \<times> 'w"
  GetByID :: "uuid \<Rightarrow> 'w \<Rightarrow> (User option \<times> error option) \<times> 'w"
  GetByIDIncludeDeleted :: "uuid \<Rightarrow> 'w \<Rightarrow> (User option \<times> error option) \<times> 'w"
  GetByEmail :: "string \<Rightarrow> 'w \<Rightarrow> (User option \<times> error option) \<times> 'w"
  GetByUsername :: "string \<Rightarrow> 'w \<Rightarrow> (User option \<times> error option) \<times> 'w"
  Update :: "User \<Rightarrow> 'w \<Rightarrow> error option \<times> 'w"

definition call_Create :: "'w UserRepository \<Rightarrow> User \<Rightarrow> 'w world \<Rightarrow> error option \<times> 'w world" where
  "call_Create r user w =
     (let (err, x) = Create r user (ext w)
      in (err, w\<lparr>ext := x, trace := trace w @ [Call_Create user err]\<rparr>))"

definition call_Update :: "'w UserRepository \<Rightarrow> User \<Rightarrow> 'w world \<Rightarrow> error option \<times> 'w world" where
  "call_Update r user w =
     (let (err, x) = Update r user (ext w)
      in (err, w\<lparr>ext := x, trace := trace w @ [Call_Update user err]\<rparr>))"

definition call_GetByID :: "'w UserRepository \<Rightarrow> uuid \<Rightarrow> 'w world \<Rightarrow> (User option \<times> error option) \<times> 'w world" where
  "call_GetByID r userID w =
     (let ((user, err), x) = GetByID r userID (ext w)
      in ((user, err), w\<lparr>ext := x, trace := trace w @ [Call_GetByID userID user err]\<rparr>))"

definition call_GetByIDIncludeDeleted :: "'w UserRepository \<Rightarrow> uuid \<Rightarrow> 'w world \<Rightarrow> (User option \<times> error option) \<times> 'w world" where
  "call_GetByIDIncludeDeleted r userID w =
     (let ((user, err), x) = GetByIDIncludeDeleted r userID (ext w)
      in ((user, err), w\<lparr>ext := x, trace := trace w @ [Call_GetByIDIncludeDeleted userID user err]\<rparr>))"

definition call_GetByEmail :: "'w UserRepository \<Rightarrow> string \<Rightarrow> 'w world \<Rightarrow> (User option \<times> error option) \<times> 'w world" where
  "call_GetByEmail r email w =
     (let ((user, err), x) = GetByEmail r email (ext w)
      in ((user, err), w\<lparr>ext := x, trace := trace w @ [Call_GetByEmail email user err]\<rparr>))"

definition call_GetByUsername :: "'w UserRepository \<Rightarrow> string \<Rightarrow> 'w world \<Rightarrow> (User option \<times> error option) \<times> 'w world" where
  "call_GetByUsername r username w =
     (let ((user, err), x) = GetByUsername r username (ext w)
      in ((user, err), w\<lparr>ext := x, trace := trace w @ [Call_GetByUsername username user err]\<rparr>))"

text \<open>\<^verbatim>\<open>s.logger.Error(msg, "error", err)\<close>: the logger returns nothing.\<close>

definition logger_Error :: "string \<Rightarrow> error \<Rightarrow> 'w world \<Rightarrow> 'w world" where
  "logger_Error msg err w = w\<lparr>trace := trace w @ [Call_LoggerError msg err]\<rparr>"

section \<open>Package services: UserAggregateService\<close>

text \<open>
  The service holds its collaborators, as \<^verbatim>\<open>NewUserAggregateService\<close> is given them
  (none of them nil). \<^verbatim>\<open>profileRepo\<close> is used by none of its methods and the logger is
  a concrete struct whose calls are recorded in the trace, so the record keeps the
  repository and the dispatcher.
  A method that dereferences a nil \<^verbatim>\<open>*entities.User\<close> panics: \<open>Panics\<close>.
\<close>

record 'w UserAggregateService =
  userRepo :: "'w UserRepository"
  eventDispatcher :: "'w DomainEventDispatcher"

datatype 'a outcome = Returns 'a | Panics

definition validateUserBusinessRules :: "'w UserAggregateService \<Rightarrow> User \<Rightarrow> 'w world \<Rightarrow> error option \<times> 'w world" where
  "validateUserBusinessRules s user w =
     (let ((existingUser, err), w1) = call_GetByEmail (userRepo s) (Email user) w in
      if err = None \<and> existingUser \<noteq> None then (Some (errors_New ''email already exists''), w1)
      else
        (let ((existingUser, err), w2) = call_GetByUsername (userRepo s) (Username user) w1 in
         if err = None \<and> existingUser \<noteq> None then (Some (errors_New ''username already exists''), w2)
         else (None, w2)))"

definition validateUserDeletionRules :: "'w UserAggregateService \<Rightarrow> User \<Rightarrow> 'w world \<Rightarrow> error option \<times> 'w world" where
  "validateUserDeletionRules s user w =
     (if IsDeleted user then (Some (errors_New ''user is already deleted''), w) else (None, w))"

text \<open>
  \<^verbatim>\<open>CreateUser\<close> returns \<^verbatim>\<open>(*entities.User, error)\<close>. A dispatch error is logged and
  the method goes on to \<^verbatim>\<open>return user, nil\<close>; the user it returns is the one the
  dispatcher worked on, through \<^verbatim>\<open>&user.AggregateRoot\<close>.
\<close>

definition CreateUser :: "'w UserAggregateService \<Rightarrow> string \<Rightarrow> string \<Rightarrow> string \<Rightarrow> string \<Rightarrow> 'w world \<Rightarrow> (User option \<times> error option) \<times> 'w world" where
  "CreateUser s email username firstName lastName w =
     (let (user, w1) = NewUser email username firstName lastName w in
      case validateUserBusinessRules s user w1 of
        (Some err, w2) \<Rightarrow> ((None, Some err), w2)
      | (None, w2) \<Rightarrow>
          (case call_Create (userRepo s) user w2 of
             (Some err, w3) \<Rightarrow> ((None, Some err), w3)
           | (None, w3) \<Rightarrow>
               (case DispatchEvents (eventDispatcher s) (AggregateRoot user) w3 of
                  ((Some err, ar), w4) \<Rightarrow>
                    ((Some (user\<lparr>AggregateRoot := ar\<rparr>), None),
                     logger_Error ''Failed to dispatch domain events'' err w4)
                | ((None, ar), w4) \<Rightarrow> ((Some (user\<lparr>AggregateRoot := ar\<rparr>), None), w4))))"

text \<open>
  \<^verbatim>\<open>SoftDeleteUser\<close> loads with \<^verbatim>\<open>GetByID\<close>. With \<^verbatim>\<open>err == nil\<close> and a nil user,
  \<^verbatim>\<open>user.IsDeleted()\<close> in \<^verbatim>\<open>validateUserDeletionRules\<close> dereferences nil.
\<close>

definition SoftDeleteUser :: "'w UserAggregateService \<Rightarrow> uuid \<Rightarrow> 'w world \<Rightarrow> error option outcome \<times> 'w world" where
  "SoftDeleteUser s userID w =
     (case call_GetByID (userRepo s) userID w of
        ((_, Some err), w1) \<Rightarrow> (Returns (Some err), w1)
      | ((None, None), w1) \<Rightarrow> (Panics, w1)
      | ((Some user, None), w1) \<Rightarrow>
          (case validateUserDeletionRules s user w1 of
             (Some err, w2) \<Rightarrow> (Returns (Some err), w2)
           | (None, w2) \<Rightarrow>
               (let (user1, w3) = Delete user w2 in
                case call_Update (userRepo s) user1 w3 of
                  (Some err, w4) \<Rightarrow> (Returns (Some err), w4)
                | (None, w4) \<Rightarrow>
                    (case DispatchEvents (eventDispatcher s) (AggregateRoot user1) w4 of
                       ((Some err, ar), w5) \<Rightarrow>
                         (Returns None, logger_Error ''Failed to dispatch domain events'' err w5)
                     | ((None, ar), w5) \<Rightarrow> (Returns None, w5)))))"

text \<open>
  \<^verbatim>\<open>RestoreUser\<close> loads with \<^verbatim>\<open>GetByIDIncludeDeleted\<close>, checks \<^verbatim>\<open>!user.IsDeleted()\<close>
  itself, then \<^verbatim>\<open>user.Restore(); user.IsActive = true\<close> and \<^verbatim>\<open>Update\<close>. It does not
  dispatch.
\<close>

definition RestoreUser :: "'w UserAggregateService \<Rightarrow> uuid \<Rightarrow> 'w world \<Rightarrow> error option outcome \<times> 'w world" where
  "RestoreUser s userID w =
     (case call_GetByIDIncludeDeleted (userRepo s) userID w of
        ((_, Some err), w1) \<Rightarrow> (Returns (Some err), w1)
      | ((None, None), w1) \<Rightarrow> (Panics, w1)
      | ((Some user, None), w1) \<Rightarrow>
          (if \<not> IsDeleted user then (Returns (Some (errors_New ''user is not deleted'')), w1)
           else
             (let user1 = (Restore user)\<lparr>IsActive := True\<rparr> in
              case call_Update (userRepo s) user1 w1 of
                (Some err, w2) \<Rightarrow> (Returns (Some err), w2)
              | (None, w2) \<Rightarrow> (Returns None, w2))))"

section \<open>Package gorm: userRepository\<close>

text \<open>
  \<^verbatim>\<open>userRepository\<close> is written against the library \<^verbatim>\<open>gorm.io/gorm\<close>, which is
  not part of the program. The table \<^verbatim>\<open>users\<close> is the list of its rows.

  The library narrows a query to the rows that are not soft-deleted only for a model with a
  field of its own type \<^verbatim>\<open>gorm.DeletedAt\<close>. \<^verbatim>\<open>BaseEntity.DeletedAt\<close> is declared
  \<^verbatim>\<open>*time.Time\<close> and \<^verbatim>\<open>NewDatabase\<close> registers no plugin, so for \<^verbatim>\<open>User\<close> the
  default scope and \<^verbatim>\<open>Unscoped()\<close> see the same rows, soft-deleted ones included,
  whatever the comments of the methods say. \<^verbatim>\<open>First\<close> gives
  \<^verbatim>\<open>gorm.ErrRecordNotFound\<close> when no row matches; the primary key and the unique
  indexes leave at most one row to match. Any statement can fail with another error
  (\<open>fault\<close>: the connection is lost). A row read back has an empty event buffer, since
  \<^verbatim>\<open>domainEvents\<close> is not a column; the profile is kept in the row of its user.

  \<^verbatim>\<open>MigrateDatabase\<close> creates the table from the tags of \<^verbatim>\<open>User\<close>: \<^verbatim>\<open>ID\<close> is the
  primary key, \<^verbatim>\<open>Email\<close> and \<^verbatim>\<open>Username\<close> carry a \<^verbatim>\<open>uniqueIndex\<close>. A write that
  would give two rows the same key fails with the error of the database, \<open>duplicate_key\<close>.
\<close>

record DB =
  rows :: "User list"
  fault :: "error option"

datatype gorm_result = Found User | ErrRecordNotFound | OtherError error

definition duplicate_key :: error where
  "duplicate_key = errors_New ''duplicate key value violates unique constraint''"

definition First :: "(User \<Rightarrow> bool) \<Rightarrow> DB \<Rightarrow> gorm_result" where
  "First cond db =
     (case fault db of
        Some e \<Rightarrow> OtherError e
      | None \<Rightarrow>
          (case filter cond (rows db) of
             [] \<Rightarrow> ErrRecordNotFound
           | u # _ \<Rightarrow> Found (u\<lparr>AggregateRoot := \<lparr>domainEvents = []\<rparr>\<rparr>)))"

text \<open>Two rows that cannot be in the table together.\<close>

definition conflicts :: "User \<Rightarrow> User \<Rightarrow> bool" where
  "conflicts user row = (ID row = ID user \<or> Email row = Email user \<or> Username row = Username user)"

definition userRepository_Create :: "User \<Rightarrow> DB \<Rightarrow> error option \<times> DB" where
  "userRepository_Create user db =
     (case fault db of
        Some e \<Rightarrow> (Some e, db)
      | None \<Rightarrow>
          (if list_ex (conflicts user) (rows db) then (Some duplicate_key, db)
           else (None, db\<lparr>rows := rows db @ [user]\<rparr>)))"

text \<open>\<^verbatim>\<open>r.db.WithContext(ctx).Preload("Profile").First(&user, "id = ?", id)\<close>\<close>

definition userRepository_GetByID :: "uuid \<Rightarrow> DB \<Rightarrow> (User option \<times> error option) \<times> DB" where
  "userRepository_GetByID userID db =
     (case First (\<lambda>u. ID u = userID) db of
        ErrRecordNotFound \<Rightarrow> ((None, Some (errors_New ''user not found'')), db)
      | OtherError err \<Rightarrow> ((None, Some err), db)
      | Found user \<Rightarrow> ((Some user, None), db))"

text \<open>The same query after \<^verbatim>\<open>Unscoped()\<close>, which changes nothing for \<^verbatim>\<open>User\<close>.\<close>

definition userRepository_GetByIDIncludeDeleted :: "uuid \<Rightarrow> DB \<Rightarrow> (User option \<times> error option) \<times> DB" where
  "userRepository_GetByIDIncludeDeleted userID db =
     (case First (\<lambda>u. ID u = userID) db of
        ErrRecordNotFound \<Rightarrow> ((None, Some (errors_New ''user not found'')), db)
      | OtherError err \<Rightarrow> ((None, Some err), db)
      | Found user \<Rightarrow> ((Some user, None), db))"

text \<open>\<^verbatim>\<open>First(&user, "email = ?", email)\<close>\<close>

definition userRepository_GetByEmail :: "string \<Rightarrow> DB \<Rightarrow> (User option \<times> error option) \<times> DB" where
  "userRepository_GetByEmail email db =
     (case First (\<lambda>u. Email u = email) db of
        ErrRecordNotFound \<Rightarrow> ((None, Some (errors_New ''user not found'')), db)
      | OtherError err \<Rightarrow> ((None, Some err), db)
      | Found user \<Rightarrow> ((Some user, None), db))"

text \<open>\<^verbatim>\<open>First(&user, "username = ?", username)\<close>\<close>

definition userRepository_GetByUsername :: "string \<Rightarrow> DB \<Rightarrow> (User option \<times> error option) \<times> DB" where
  "userRepository_GetByUsername username db =
     (case First (\<lambda>u. Username u = username) db of
        ErrRecordNotFound \<Rightarrow> ((None, Some (errors_New ''user not found'')), db)
      | OtherError err \<Rightarrow> ((None, Some err), db)
      | Found user \<Rightarrow> ((Some user, None), db))"

text \<open>
  \<^verbatim>\<open>Save\<close> writes the row with the user's primary key, or inserts it; the unique
  indexes are checked against the other rows.
\<close>

definition userRepository_Update :: "User \<Rightarrow> DB \<Rightarrow> error option \<times> DB" where
  "userRepository_Update user db =
     (case fault db of
        Some e \<Rightarrow> (Some e, db)
      | None \<Rightarrow>
          (if list_ex (\<lambda>row. ID row \<noteq> ID user \<and> conflicts user row) (rows db)
           then (Some duplicate_key, db)
           else
             (None,
              db\<lparr>rows := (if list_ex (\<lambda>row. ID row = ID user) (rows db)
                           then map (\<lambda>row. if ID row = ID user then user else row) (rows db)
                           else rows db @ [user])\<rparr>)))"

definition NewUserRepository :: "DB UserRepository" where
  "NewUserRepository =
     \<lparr>Create = userRepository_Create,
      GetByID = userRepository_GetByID,
      GetByIDIncludeDeleted = userRepository_GetByIDIncludeDeleted,
      GetByEmail = userRepository_GetByEmail,
      GetByUsername = userRepository_GetByUsername,
      Update = userRepository_Update\<rparr>"

section \<open>The event handlers of the program\<close>

text \<open>
  \<^verbatim>\<open>UserCreatedEventHandler\<close> and \<^verbatim>\<open>UserDeletedEventHandler\<close>: \<^verbatim>\<open>CanHandle\<close> is the
  type assertion, \<^verbatim>\<open>Handle\<close> writes a log line and returns nil on every path.
\<close>

definition UserCreatedEventHandler :: "'w DomainEventHandler" where
  "UserCreatedEventHandler =
     \<lparr>Handle = (\<lambda>event x. (None, x)),
      CanHandle = (\<lambda>event. case event of UserCreatedEvent uid email username t \<Rightarrow> True | _ \<Rightarrow> False)\<rparr>"

definition UserDeletedEventHandler :: "'w DomainEventHandler" where
  "UserDeletedEventHandler =
     \<lparr>Handle = (\<lambda>event x. (None, x)),
      CanHandle = (\<lambda>event. case event of UserDeletedEvent uid t \<Rightarrow> True | _ \<Rightarrow> False)\<rparr>"

section \<open>Example runs\<close>

text \<open>
  Collaborators and stores for concrete runs: a handler that fails on every event, a
  publisher that accepts every batch, a repository whose uniqueness lookups fail while the
  table still answers a write, and a world whose identifiers and clock readings are known.
\<close>

definition handler_down :: error where
  "handler_down = errors_New ''handler down''"

definition connection_lost :: error where
  "connection_lost = errors_New ''connection lost''"

definition failing_handler :: "'w DomainEventHandler" where
  "failing_handler = \<lparr>Handle = (\<lambda>event x. (Some handler_down, x)), CanHandle = (\<lambda>event. True)\<rparr>"

definition accepting_publisher :: "'w DomainEventPublisher" where
  "accepting_publisher = (\<lambda>events x. (None, x))"

definition dispatcher_ok :: "'w DomainEventDispatcher" where
  "dispatcher_ok =
     RegisterHandler UserDeletedEventHandler
       (RegisterHandler UserCreatedEventHandler (NewDomainEventDispatcher (Some accepting_publisher)))"

definition dispatcher_failing :: "'w DomainEventDispatcher" where
  "dispatcher_failing =
     RegisterHandler failing_handler
       (RegisterHandler UserCreatedEventHandler (NewDomainEventDispatcher (Some accepting_publisher)))"

definition service_ok :: "DB UserAggregateService" where
  "service_ok = \<lparr>userRepo = NewUserRepository, eventDispatcher = dispatcher_ok\<rparr>"

definition service_failing_dispatch :: "DB UserAggregateService" where
  "service_failing_dispatch = \<lparr>userRepo = NewUserRepository, eventDispatcher = dispatcher_failing\<rparr>"

definition service_failing_lookups :: "DB UserAggregateService" where
  "service_failing_lookups =
     \<lparr>userRepo = NewUserRepository
         \<lparr>GetByEmail := (\<lambda>email db. ((None, Some connection_lost), db)),
          GetByUsername := (\<lambda>username db. ((None, Some connection_lost), db))\<rparr>,
      eventDispatcher = dispatcher_ok\<rparr>"

definition example_world :: "'w \<Rightarrow> 'w world" where
  "example_world x =
     \<lparr>uuids = (\<lambda>n. of_nat n + 100), uuid_calls = 2,
      times = (\<lambda>n. 1000 + int n), time_calls = 0,
      ext = x, trace = []\<rparr>"

definition alice_profile :: Profile where
  "alice_profile =
     \<lparr>ID = 8, CreatedAt = 10, UpdatedAt = 10, DeletedAt = None,
      UserID = 7, Bio = ''hello'', Avatar = ''a.png'', DateOfBirth = None\<rparr>"

definition alice :: User where
  "alice =
     \<lparr>ID = 7, CreatedAt = 10, UpdatedAt = 10, DeletedAt = None,
      AggregateRoot = \<lparr>domainEvents = []\<rparr>,
      Email = ''alice@example.com'', Username = ''alice'',
      FirstName = ''Alice'', LastName = ''Liddell'',
      IsActive = True, Profile = Some alice_profile\<rparr>"

definition alice_deleted :: User where
  "alice_deleted = alice\<lparr>DeletedAt := Some 20, IsActive := False\<rparr>"

definition db_empty :: DB where
  "db_empty = \<lparr>rows = [], fault = None\<rparr>"

definition db_alice :: DB where
  "db_alice = \<lparr>rows = [alice], fault = None\<rparr>"

definition db_alice_deleted :: DB where
  "db_alice_deleted = \<lparr>rows = [alice_deleted], fault = None\<rparr>"

definition db_down :: DB where
  "db_down = \<lparr>rows = [alice], fault = Some connection_lost\<rparr>"

text \<open>A buffer of two events, and alice deleted once and then once more.\<close>

definition two_events :: AggregateRoot where
  "two_events = \<lparr>domainEvents = [UserCreatedEvent 7 ''alice@example.com'' ''alice'' 10, UserDeletedEvent 7 20]\<rparr>"

definition alice_deleted_once :: "User \<times> unit world" where
  "alice_deleted_once = Delete alice (example_world ())"

definition alice_deleted_twice :: "User \<times> unit world" where
  "alice_deleted_twice = Delete (fst alice_deleted_once) (snd alice_deleted_once)"

text \<open>
  Runs of the service: bob is created while a handler fails, while the store is down and
  on an empty store; alice is created a second time while the uniqueness lookups fail;
  alice is deleted while a handler fails, deleted when she is deleted already and when she
  is not, a user that is not in the store is deleted, and alice is restored when she is not
  deleted.
\<close>

definition bob :: User where
  "bob =
     \<lparr>ID = 102, CreatedAt = 1000, UpdatedAt = 1001, DeletedAt = None,
      AggregateRoot = \<lparr>domainEvents = [UserCreatedEvent 102 ''bob@example.com'' ''bob'' 1002]\<rparr>,
      Email = ''bob@example.com'', Username = ''bob'',
      FirstName = ''Bob'', LastName = ''Builder'',
      IsActive = True, Profile = None\<rparr>"

definition create_bob_handler_down :: "(User option \<times> error option) \<times> DB world" where
  "create_bob_handler_down =
     CreateUser service_failing_dispatch ''bob@example.com'' ''bob'' ''Bob'' ''Builder''
       (example_world db_alice)"

definition create_bob_store_down :: "(User option \<times> error option) \<times> DB world" where
  "create_bob_store_down =
     CreateUser service_ok ''bob@example.com'' ''bob'' ''Bob'' ''Builder'' (example_world db_down)"

definition create_bob :: "(User option \<times> error option) \<times> DB world" where
  "create_bob =
     CreateUser service_ok ''bob@example.com'' ''bob'' ''Bob'' ''Builder'' (example_world db_empty)"

definition create_alice_again :: "(User option \<times> error option) \<times> DB world" where
  "create_alice_again =
     CreateUser service_failing_lookups ''alice@example.com'' ''alice'' ''Alice'' ''Again''
       (example_world db_alice)"

definition create_alice_duplicate :: "(User option \<times> error option) \<times> DB world" where
  "create_alice_duplicate =
     CreateUser service_ok ''alice@example.com'' ''alice'' ''Alice'' ''Again'' (example_world db_alice)"

definition delete_alice_handler_down :: "error option outcome \<times> DB world" where
  "delete_alice_handler_down = SoftDeleteUser service_failing_dispatch 7 (example_world db_alice)"




definition restore_alice_active :: "error option outcome \<times> DB world" where
  "restore_alice_active = RestoreUser service_ok 7 (example_world db_alice)"

section \<open>Reading a trace\<close>

text \<open>The error a recorded call returned (the logger returns nothing).\<close>

fun call_error :: "call \<Rightarrow> error option" where
  "call_error (Call_Handle event err) = err"
| "call_error (Call_Publish events err) = err"
| "call_error (Call_Create user err) = err"
| "call_error (Call_Update user err) = err"
| "call_error (Call_GetByID userID user err) = err"
| "call_error (Call_GetByIDIncludeDeleted userID user err) = err"
| "call_error (Call_GetByEmail email user err) = err"
| "call_error (Call_GetByUsername username user err) = err"
| "call_error (Call_LoggerError msg err) = None"

fun is_Handle :: "call \<Rightarrow> bool" where
  "is_Handle (Call_Handle event err) = True"
| "is_Handle c = False"

fun is_Publish :: "call \<Rightarrow> bool" where
  "is_Publish (Call_Publish events err) = True"
| "is_Publish c = False"

text \<open>A call the dispatcher makes: an event handed to a handler or to the publisher.\<close>

definition is_dispatch :: "call \<Rightarrow> bool" where
  "is_dispatch c = (is_Handle c \<or> is_Publish c)"

text \<open>A call to the repository: the lookups, and the two writes.\<close>

fun is_lookup :: "call \<Rightarrow> bool" where
  "is_lookup (Call_GetByID userID user err) = True"
| "is_lookup (Call_GetByIDIncludeDeleted userID user err) = True"
| "is_lookup (Call_GetByEmail email user err) = True"
| "is_lookup (Call_GetByUsername username user err) = True"
| "is_lookup c = False"

fun is_write :: "call \<Rightarrow> bool" where
  "is_write (Call_Create user err) = True"
| "is_write (Call_Update user err) = True"
| "is_write c = False"


text \<open>
  A run of calls that stopped with the result \<open>r\<close>: with \<open>r = None\<close> every call
  succeeded, with \<open>r = Some err\<close> the last call returned \<open>err\<close> and the ones before it
  succeeded.
\<close>

definition run_outcome :: "error option \<Rightarrow> call list \<Rightarrow> bool" where
  "run_outcome r cs =
     (case r of
        None \<Rightarrow> list_all (\<lambda>c. call_error c = None) cs
      | Some err \<Rightarrow> cs \<noteq> [] \<and> call_error (last cs) = Some err \<and>
                    list_all (\<lambda>c. call_error c = None) (butlast cs))"

definition handler_run :: "error option \<Rightarrow> call list \<Rightarrow> bool" where
  "handler_run r cs = (list_all is_Handle cs \<and> run_outcome r cs)"

definition dispatch_run :: "error option \<Rightarrow> call list \<Rightarrow> bool" where
  "dispatch_run r cs = (list_all is_dispatch cs \<and> run_outcome r cs)"

text \<open>
  The calls of \<^verbatim>\<open>validateUserBusinessRules\<close> on \<open>user\<close> when it returns \<open>r\<close>: a
  duplicate is reported after a lookup that returned a user and a nil error, and a lookup
  passes when it returned an error or no user.
\<close>

definition validation_run :: "User \<Rightarrow> error option \<Rightarrow> call list \<Rightarrow> bool" where
  "validation_run user r vs =
     ((\<exists>found. r = Some (errors_New ''email already exists'') \<and>
               vs = [Call_GetByEmail (Email user) (Some found) None])
    \<or> (\<exists>eu e1 found. r = Some (errors_New ''username already exists'') \<and>
               vs = [Call_GetByEmail (Email user) eu e1,
                     Call_GetByUsername (Username user) (Some found) None] \<and>
               (e1 \<noteq> None \<or> eu = None))
    \<or> (\<exists>eu e1 uu e2. r = None \<and>
               vs = [Call_GetByEmail (Email user) eu e1,
                     Call_GetByUsername (Username user) uu e2] \<and>
               (e1 \<noteq> None \<or> eu = None) \<and> (e2 \<noteq> None \<or> uu = None)))"

section \<open>Facts about the model\<close>

subsection \<open>The calls of the dispatcher\<close>

lemma new_calls_append: "trace w' = trace w @ cs \<Longrightarrow> new_calls w w' = cs"
  by (simp add: new_calls_def)

lemma handler_run_Nil: "handler_run None []"
  by (simp add: handler_run_def run_outcome_def)

lemma handler_run_Cons:
  "handler_run r cs \<Longrightarrow> handler_run r (Call_Handle event None # cs)"
  by (cases r) (auto simp: handler_run_def run_outcome_def)

lemma handler_run_append:
  "handler_run None cs \<Longrightarrow> handler_run r ds \<Longrightarrow> handler_run r (cs @ ds)"
  by (cases r) (auto simp: handler_run_def run_outcome_def butlast_append)

lemma handler_run_single: "handler_run (Some err) [Call_Handle event (Some err)]"
  by (simp add: handler_run_def run_outcome_def)

lemma call_Handle_trace:
  "call_Handle h event w = (r, w') \<Longrightarrow> trace w' = trace w @ [Call_Handle event r]"
  by (auto simp: call_Handle_def split: prod.splits)

lemma call_Publish_trace:
  "call_Publish p events w = (r, w') \<Longrightarrow> trace w' = trace w @ [Call_Publish events r]"
  by (auto simp: call_Publish_def split: prod.splits)

lemma dispatch_event_trace:
  "dispatch_event hs event w = (r, w') \<Longrightarrow> \<exists>cs. trace w' = trace w @ cs \<and> handler_run r cs"
proof (induction hs arbitrary: w)
  case Nil
  then show ?case by (simp add: handler_run_Nil)
next
  case (Cons h hs)
  show ?case
  proof (cases "CanHandle h event")
    case False
    with Cons show ?thesis by simp
  next
    case True
    obtain r1 w1 where h: "call_Handle h event w = (r1, w1)" by (cases "call_Handle h event w")
    note t1 = call_Handle_trace [OF h]
    show ?thesis
    proof (cases r1)
      case (Some err)
      with Cons.prems True h have "r = Some err" "w' = w1" by simp_all
      with t1 Some show ?thesis by (auto simp: handler_run_single)
    next
      case None
      with Cons.prems True h have "dispatch_event hs event w1 = (r, w')" by simp
      from Cons.IH [OF this] obtain cs where "trace w' = trace w1 @ cs" "handler_run r cs" by blast
      with t1 None have "trace w' = trace w @ (Call_Handle event None # cs)"
        "handler_run r (Call_Handle event None # cs)" by (simp_all add: handler_run_Cons)
      then show ?thesis by blast
    qed
  qed
qed

lemma dispatch_all_trace:
  "dispatch_all hs events w = (r, w') \<Longrightarrow> \<exists>cs. trace w' = trace w @ cs \<and> handler_run r cs"
proof (induction events arbitrary: w)
  case Nil
  then show ?case by (simp add: handler_run_Nil)
next
  case (Cons event events)
  obtain r1 w1 where h: "dispatch_event hs event w = (r1, w1)" by (cases "dispatch_event hs event w")
  from dispatch_event_trace [OF h] obtain cs where cs: "trace w1 = trace w @ cs" "handler_run r1 cs" by blast
  show ?case
  proof (cases r1)
    case (Some err)
    with Cons.prems h have "r = Some err" "w' = w1" by simp_all
    with cs Some show ?thesis by auto
  next
    case None
    with Cons.prems h have "dispatch_all hs events w1 = (r, w')" by simp
    from Cons.IH [OF this] obtain ds where ds: "trace w' = trace w1 @ ds" "handler_run r ds" by blast
    with cs None have "trace w' = trace w @ (cs @ ds)" "handler_run r (cs @ ds)"
      by (simp_all add: handler_run_append)
    then show ?thesis by blast
  qed
qed

text \<open>
  The four ways \<open>DispatchEvents\<close> ends on a buffer that is not empty, and the one on an
  empty buffer.
\<close>

lemma DispatchEvents_cases:
  assumes "DispatchEvents d ar w = ((r, ar'), w')"
  obtains
    (empty) "DomainEvents ar = []" "r = None" "ar' = ar" "w' = w"
  | (handler_failed) err cs where "DomainEvents ar \<noteq> []" "r = Some err" "ar' = ar"
      "trace w' = trace w @ cs" "handler_run (Some err) cs"
  | (publish_failed) err cs p where "DomainEvents ar \<noteq> []" "r = Some err" "ar' = ar"
      "publisher d = Some p"
      "trace w' = trace w @ cs @ [Call_Publish (DomainEvents ar) (Some err)]" "handler_run None cs"
  | (published) cs p where "DomainEvents ar \<noteq> []" "r = None" "ar' = ClearDomainEvents ar"
      "publisher d = Some p"
      "trace w' = trace w @ cs @ [Call_Publish (DomainEvents ar) None]" "handler_run None cs"
  | (no_publisher) cs where "DomainEvents ar \<noteq> []" "r = None" "ar' = ClearDomainEvents ar"
      "publisher d = None"
      "trace w' = trace w @ cs" "handler_run None cs"
proof (cases "DomainEvents ar = []")
  case True
  with assms have "r = None" "ar' = ar" "w' = w" by (simp_all add: DispatchEvents_def)
  with True show ?thesis by (rule empty)
next
  case False
  obtain r1 w1 where h: "dispatch_all (handlers d) (DomainEvents ar) w = (r1, w1)"
    by (cases "dispatch_all (handlers d) (DomainEvents ar) w")
  from dispatch_all_trace [OF h] obtain cs where cs: "trace w1 = trace w @ cs" "handler_run r1 cs"
    by blast
  show ?thesis
  proof (cases r1)
    case (Some err)
    with assms False h have "r = Some err" "ar' = ar" "w' = w1"
      by (simp_all add: DispatchEvents_def)
    with False cs Some show ?thesis by (auto intro: handler_failed)
  next
    case None
    note r1 = None
    show ?thesis
    proof (cases "publisher d")
      case None
      with assms False h r1 have "r = None" "ar' = ClearDomainEvents ar" "w' = w1"
        by (simp_all add: DispatchEvents_def)
      with False cs r1 None show ?thesis by (auto intro: no_publisher)
    next
      case (Some p)
      obtain r2 w2 where p: "call_Publish p (DomainEvents ar) w1 = (r2, w2)"
        by (cases "call_Publish p (DomainEvents ar) w1")
      note t2 = call_Publish_trace [OF p]
      show ?thesis
      proof (cases r2)
        case None
        with assms False h r1 Some p have "r = None" "ar' = ClearDomainEvents ar" "w' = w2"
          by (simp_all add: DispatchEvents_def)
        with False cs r1 Some t2 None show ?thesis by (auto intro: published)
      next
        case (Some err)
        with assms False h r1 \<open>publisher d = Some p\<close> p have "r = Some err" "ar' = ar" "w' = w2"
          by (simp_all add: DispatchEvents_def)
        with False cs r1 \<open>publisher d = Some p\<close> t2 Some show ?thesis by (auto intro: publish_failed)
      qed
    qed
  qed
qed

lemma run_outcome_failed_last:
  assumes "run_outcome (Some err') cs" and "c \<in> set cs" and "call_error c = Some err"
  shows "c = last cs \<and> err = err'"
proof -
  from assms(1) have ne: "cs \<noteq> []" and l: "call_error (last cs) = Some err'"
    and b: "list_all (\<lambda>c. call_error c = None) (butlast cs)"
    by (simp_all add: run_outcome_def)
  from ne have "cs = butlast cs @ [last cs]" by simp
  then have "set cs = set (butlast cs) \<union> {last cs}"
    by (metis list.simps(15) set_append empty_set Un_insert_right sup_bot.right_neutral)
  with assms(2) have "c \<in> set (butlast cs) \<or> c = last cs" by auto
  moreover from b assms(3) have "c \<notin> set (butlast cs)" by (auto simp: list_all_iff)
  ultimately have "c = last cs" by simp
  with l assms(3) show ?thesis by simp
qed

lemma run_outcome_ok_all:
  "run_outcome None cs \<Longrightarrow> c \<in> set cs \<Longrightarrow> call_error c = None"
  by (simp add: run_outcome_def list_all_iff)

lemma handler_run_not_Publish: "handler_run r cs \<Longrightarrow> c \<in> set cs \<Longrightarrow> \<not> is_Publish c"
  by (cases c) (auto simp: handler_run_def list_all_iff)

lemma dispatch_run_of_handler_run: "handler_run r cs \<Longrightarrow> dispatch_run r cs"
  by (auto simp: handler_run_def dispatch_run_def is_dispatch_def list_all_iff)

lemma dispatch_run_snoc_Publish:
  "handler_run None cs \<Longrightarrow> dispatch_run r (cs @ [Call_Publish events r])"
  by (cases r) (auto simp: handler_run_def dispatch_run_def run_outcome_def is_dispatch_def list_all_iff)

lemma DispatchEvents_run:
  assumes "DispatchEvents d ar w = ((r, ar'), w')"
  shows "\<exists>ds. trace w' = trace w @ ds \<and> dispatch_run r ds"
  using assms
proof (cases rule: DispatchEvents_cases)
  case empty
  then show ?thesis by (simp add: dispatch_run_def run_outcome_def)
next
  case (handler_failed err cs)
  then show ?thesis by (auto dest: dispatch_run_of_handler_run)
next
  case (publish_failed err cs p)
  from dispatch_run_snoc_Publish [OF publish_failed(6), of "Some err" "DomainEvents ar"]
    publish_failed(2,5) show ?thesis by auto
next
  case (published cs p)
  from dispatch_run_snoc_Publish [OF published(6), of None "DomainEvents ar"]
    published(2,5) show ?thesis by auto
next
  case (no_publisher cs)
  then show ?thesis by (auto dest: dispatch_run_of_handler_run)
qed

lemma failed_dispatch_call:
  assumes "dispatch_run r ds" and "c \<in> set ds" and "call_error c = Some err"
  shows "r = Some err"
proof (cases r)
  case None
  with assms show ?thesis by (auto simp: dispatch_run_def dest: run_outcome_ok_all)
next
  case (Some err')
  with assms(1) have "run_outcome (Some err') ds" by (simp add: dispatch_run_def)
  from run_outcome_failed_last [OF this assms(2,3)] Some show ?thesis by simp
qed

lemma dispatch_run_list_all: "dispatch_run r ds \<Longrightarrow> list_all is_dispatch ds"
  by (simp add: dispatch_run_def)

lemma dispatch_run_calls: "dispatch_run r ds \<Longrightarrow> c \<in> set ds \<Longrightarrow> is_dispatch c"
  by (simp add: dispatch_run_def list_all_iff)

lemma dispatch_not_write: "is_dispatch c \<Longrightarrow> \<not> is_write c \<and> \<not> is_lookup c"
  by (cases c) (auto simp: is_dispatch_def)


lemma lookup_not_dispatch: "list_all is_lookup vs \<Longrightarrow> c \<in> set vs \<Longrightarrow> \<not> is_dispatch c \<and> \<not> is_write c"
  by (cases c) (auto simp: list_all_iff is_dispatch_def)

lemma lookup_error_free: "list_all is_lookup vs \<Longrightarrow> c \<in> set vs \<Longrightarrow> \<not> is_dispatch c"
  by (auto dest: lookup_not_dispatch)

subsection \<open>The calls of the aggregate service\<close>

lemma NewUser_eq:
  "NewUser email username firstName lastName w =
     (\<lparr>ID = uuids w (uuid_calls w), CreatedAt = times w (time_calls w),
       UpdatedAt = times w (Suc (time_calls w)), DeletedAt = None,
       AggregateRoot = \<lparr>domainEvents =
         [UserCreatedEvent (uuids w (uuid_calls w)) email username (times w (Suc (Suc (time_calls w))))]\<rparr>,
       Email = email, Username = username, FirstName = firstName, LastName = lastName,
       IsActive = True, Profile = None\<rparr>,
      w\<lparr>uuid_calls := Suc (uuid_calls w), time_calls := Suc (Suc (Suc (time_calls w)))\<rparr>)"
  by (simp add: NewUser_def uuid_New_def time_Now_def AddDomainEvent_def)

lemma NewUser_fields:
  "Email (fst (NewUser email username firstName lastName w)) = email"
  "Username (fst (NewUser email username firstName lastName w)) = username"
  by (simp_all add: NewUser_eq)

lemma Delete_eq:
  "Delete u w =
     (u\<lparr>DeletedAt := Some (times w (time_calls w)), IsActive := False,
        AggregateRoot := \<lparr>domainEvents = domainEvents (AggregateRoot u) @
           [UserDeletedEvent (ID u) (times w (Suc (time_calls w)))]\<rparr>\<rparr>,
      w\<lparr>time_calls := Suc (Suc (time_calls w))\<rparr>)"
  by (simp add: Delete_def SoftDelete_def time_Now_def AddDomainEvent_def)

lemma Delete_keeps_Profile: "Profile (fst (Delete u w)) = Profile u"
  by (simp add: Delete_eq)

lemma call_Create_trace:
  "call_Create r user w = (err, w') \<Longrightarrow> trace w' = trace w @ [Call_Create user err]"
  by (auto simp: call_Create_def split: prod.splits)

lemma call_Update_trace:
  "call_Update r user w = (err, w') \<Longrightarrow> trace w' = trace w @ [Call_Update user err]"
  by (auto simp: call_Update_def split: prod.splits)

lemma call_GetByID_trace:
  "call_GetByID r userID w = ((user, err), w') \<Longrightarrow>
     trace w' = trace w @ [Call_GetByID userID user err] \<and>
     times w' = times w \<and> time_calls w' = time_calls w"
  by (auto simp: call_GetByID_def split: prod.splits)

lemma call_GetByEmail_trace:
  "call_GetByEmail r email w = ((user, err), w') \<Longrightarrow>
     trace w' = trace w @ [Call_GetByEmail email user err]"
  by (auto simp: call_GetByEmail_def split: prod.splits)

lemma call_GetByUsername_trace:
  "call_GetByUsername r username w = ((user, err), w') \<Longrightarrow>
     trace w' = trace w @ [Call_GetByUsername username user err]"
  by (auto simp: call_GetByUsername_def split: prod.splits)

lemma logger_Error_trace:
  "trace (logger_Error msg err w) = trace w @ [Call_LoggerError msg err]"
  by (simp add: logger_Error_def)

text \<open>
  The three ways the validation of a new user ends.
\<close>

lemma validateUserBusinessRules_cases:
  assumes "validateUserBusinessRules s user w = (r, w')"
  obtains
    (duplicate_email) found where "r = Some (errors_New ''email already exists'')"
      "trace w' = trace w @ [Call_GetByEmail (Email user) (Some found) None]"
  | (duplicate_username) eu e1 found where "r = Some (errors_New ''username already exists'')"
      "trace w' = trace w @ [Call_GetByEmail (Email user) eu e1,
                             Call_GetByUsername (Username user) (Some found) None]"
      "e1 \<noteq> None \<or> eu = None"
  | (passed) eu e1 uu e2 where "r = None"
      "trace w' = trace w @ [Call_GetByEmail (Email user) eu e1,
                             Call_GetByUsername (Username user) uu e2]"
      "e1 \<noteq> None \<or> eu = None" "e2 \<noteq> None \<or> uu = None"
proof -
  obtain eu e1 w1 where g1: "call_GetByEmail (userRepo s) (Email user) w = ((eu, e1), w1)"
    by (metis surj_pair)
  note t1 = call_GetByEmail_trace [OF g1]
  show ?thesis
  proof (cases "e1 = None \<and> eu \<noteq> None")
    case True
    with assms g1 have "r = Some (errors_New ''email already exists'')" "w' = w1"
      by (auto simp: validateUserBusinessRules_def)
    with t1 True show ?thesis by (auto intro: duplicate_email)
  next
    case False
    obtain uu e2 w2 where g2: "call_GetByUsername (userRepo s) (Username user) w1 = ((uu, e2), w2)"
      by (metis surj_pair)
    note t2 = call_GetByUsername_trace [OF g2]
    show ?thesis
    proof (cases "e2 = None \<and> uu \<noteq> None")
      case True
      with assms g1 g2 False have "r = Some (errors_New ''username already exists'')" "w' = w2"
        by (auto simp: validateUserBusinessRules_def)
      with t1 t2 True False show ?thesis by (auto intro: duplicate_username)
    next
      case no: False
      with assms g1 g2 False have "r = None" "w' = w2"
        by (auto simp: validateUserBusinessRules_def)
      with t1 t2 no False show ?thesis by (auto intro: passed)
    qed
  qed
qed

lemma validated_run:
  assumes "validateUserBusinessRules s user w = (r, w')"
  shows "\<exists>vs. trace w' = trace w @ vs \<and> validation_run user r vs"
  using assms by (cases rule: validateUserBusinessRules_cases) (auto simp: validation_run_def)

lemma validation_run_lookups: "validation_run user r vs \<Longrightarrow> list_all is_lookup vs"
  by (auto simp: validation_run_def)

text \<open>
  The four ways \<open>CreateUser\<close> ends.
\<close>

lemma CreateUser_cases:
  assumes "CreateUser s email username firstName lastName w = (res, w')"
  obtains
    (rejected) err vs where "res = (None, Some err)"
      "new_calls w w' = vs"
      "validation_run (fst (NewUser email username firstName lastName w)) (Some err) vs"
  | (create_failed) err vs where "res = (None, Some err)"
      "new_calls w w' = vs @ [Call_Create (fst (NewUser email username firstName lastName w)) (Some err)]"
      "validation_run (fst (NewUser email username firstName lastName w)) None vs"
  | (dispatched) vs ds ar where
      "res = (Some ((fst (NewUser email username firstName lastName w))\<lparr>AggregateRoot := ar\<rparr>), None)"
      "new_calls w w' = vs @ [Call_Create (fst (NewUser email username firstName lastName w)) None] @ ds"
      "validation_run (fst (NewUser email username firstName lastName w)) None vs"
      "dispatch_run None ds"
  | (dispatch_failed) vs ds err ar where
      "res = (Some ((fst (NewUser email username firstName lastName w))\<lparr>AggregateRoot := ar\<rparr>), None)"
      "new_calls w w' = vs @ [Call_Create (fst (NewUser email username firstName lastName w)) None] @ ds @
                          [Call_LoggerError ''Failed to dispatch domain events'' err]"
      "validation_run (fst (NewUser email username firstName lastName w)) None vs"
      "dispatch_run (Some err) ds"
proof -
  obtain user w1 where n: "NewUser email username firstName lastName w = (user, w1)"
    by (metis surj_pair)
  then have t1: "trace w1 = trace w" by (auto simp: NewUser_eq)
  obtain r2 w2 where v: "validateUserBusinessRules s user w1 = (r2, w2)" by (metis surj_pair)
  from validated_run [OF v] obtain vs where vs: "trace w2 = trace w1 @ vs" "validation_run user r2 vs"
    by blast
  show ?thesis
  proof (cases r2)
    case (Some err)
    with assms n v have "res = (None, Some err)" "w' = w2" by (simp_all add: CreateUser_def)
    moreover from t1 vs \<open>w' = w2\<close> have "new_calls w w' = vs" by (simp add: new_calls_def)
    ultimately show ?thesis using n vs(2) Some by (auto intro: rejected)
  next
    case None
    note r2 = None
    obtain r3 w3 where c: "call_Create (userRepo s) user w2 = (r3, w3)" by (metis surj_pair)
    note t3 = call_Create_trace [OF c]
    show ?thesis
    proof (cases r3)
      case (Some err)
      with assms n v r2 c have "res = (None, Some err)" "w' = w3" by (simp_all add: CreateUser_def)
      moreover from t1 vs t3 Some \<open>w' = w3\<close>
      have "new_calls w w' = vs @ [Call_Create user (Some err)]" by (simp add: new_calls_def)
      ultimately show ?thesis using n vs(2) r2 by (auto intro: create_failed)
    next
      case None
      note r3 = None
      obtain r4 ar w4 where d: "DispatchEvents (eventDispatcher s) (AggregateRoot user) w3 = ((r4, ar), w4)"
        by (metis surj_pair)
      from DispatchEvents_run [OF d] obtain ds where ds: "trace w4 = trace w3 @ ds" "dispatch_run r4 ds"
        by blast
      show ?thesis
      proof (cases r4)
        case None
        with assms n v r2 c r3 d have "res = (Some (user\<lparr>AggregateRoot := ar\<rparr>), None)" "w' = w4"
          by (simp_all add: CreateUser_def)
        moreover from t1 vs t3 r3 ds \<open>w' = w4\<close>
        have "new_calls w w' = vs @ [Call_Create user None] @ ds" by (simp add: new_calls_def)
        ultimately show ?thesis using n vs(2) r2 ds(2) None by (auto intro: dispatched)
      next
        case (Some err)
        with assms n v r2 c r3 d have "res = (Some (user\<lparr>AggregateRoot := ar\<rparr>), None)"
          "w' = logger_Error ''Failed to dispatch domain events'' err w4"
          by (simp_all add: CreateUser_def)
        moreover from t1 vs t3 r3 ds \<open>w' = logger_Error ''Failed to dispatch domain events'' err w4\<close>
        have "new_calls w w' = vs @ [Call_Create user None] @ ds @
                [Call_LoggerError ''Failed to dispatch domain events'' err]"
          by (simp add: new_calls_def logger_Error_trace)
        ultimately show ?thesis using n vs(2) r2 ds(2) Some by (auto intro: dispatch_failed)
      qed
    qed
  qed
qed

text \<open>
  The six ways \<open>SoftDeleteUser\<close> ends.
\<close>

lemma SoftDeleteUser_cases:
  assumes "SoftDeleteUser s userID w = (res, w')"
  obtains
    (load_failed) found err where "res = Returns (Some err)"
      "new_calls w w' = [Call_GetByID userID found (Some err)]"
      "fst (GetByID (userRepo s) userID (ext w)) = (found, Some err)"
  | (nil_user) "res = Panics" "new_calls w w' = [Call_GetByID userID None None]"
      "fst (GetByID (userRepo s) userID (ext w)) = (None, None)"
  | (already_deleted) user where "res = Returns (Some (errors_New ''user is already deleted''))"
      "new_calls w w' = [Call_GetByID userID (Some user) None]" "IsDeleted user"
      "fst (GetByID (userRepo s) userID (ext w)) = (Some user, None)"
  | (update_failed) user err where "res = Returns (Some err)" "\<not> IsDeleted user"
      "new_calls w w' = [Call_GetByID userID (Some user) None,
                          Call_Update (fst (Delete user w)) (Some err)]"
      "fst (GetByID (userRepo s) userID (ext w)) = (Some user, None)"
  | (dispatched) user ds where "res = Returns None" "\<not> IsDeleted user"
      "new_calls w w' = [Call_GetByID userID (Some user) None,
                          Call_Update (fst (Delete user w)) None] @ ds"
      "dispatch_run None ds"
      "fst (GetByID (userRepo s) userID (ext w)) = (Some user, None)"
  | (dispatch_failed) user ds err where "res = Returns None" "\<not> IsDeleted user"
      "new_calls w w' = [Call_GetByID userID (Some user) None,
                          Call_Update (fst (Delete user w)) None] @ ds @
                          [Call_LoggerError ''Failed to dispatch domain events'' err]"
      "dispatch_run (Some err) ds"
      "fst (GetByID (userRepo s) userID (ext w)) = (Some user, None)"
proof -
  obtain found e1 w1 where g: "call_GetByID (userRepo s) userID w = ((found, e1), w1)"
    by (metis surj_pair)
  from g have gid: "fst (GetByID (userRepo s) userID (ext w)) = (found, e1)"
    by (auto simp: call_GetByID_def split: prod.splits)
  from call_GetByID_trace [OF g] have t1: "trace w1 = trace w @ [Call_GetByID userID found e1]"
    and clock: "times w1 = times w" "time_calls w1 = time_calls w" by simp_all
  show ?thesis
  proof (cases e1)
    case (Some err)
    with assms g have "res = Returns (Some err)" "w' = w1"
      by (simp_all add: SoftDeleteUser_def split: option.splits)
    with t1 Some gid show ?thesis by (auto intro: load_failed simp: new_calls_def)
  next
    case None
    note e1 = None
    show ?thesis
    proof (cases found)
      case None
      with assms g e1 have "res = Panics" "w' = w1" by (simp_all add: SoftDeleteUser_def)
      with t1 e1 None gid show ?thesis by (auto intro: nil_user simp: new_calls_def)
    next
      case (Some user)
      note found = Some
      show ?thesis
      proof (cases "IsDeleted user")
        case True
        with assms g e1 found have "res = Returns (Some (errors_New ''user is already deleted''))" "w' = w1"
          by (simp_all add: SoftDeleteUser_def validateUserDeletionRules_def)
        with t1 e1 found True gid show ?thesis by (auto intro: already_deleted simp: new_calls_def)
      next
        case False
        obtain user1 w3 where del: "Delete user w1 = (user1, w3)" by (metis surj_pair)
        with clock have u1: "user1 = fst (Delete user w)" and t3: "trace w3 = trace w1"
          by (auto simp: Delete_eq)
        obtain r4 w4 where up: "call_Update (userRepo s) user1 w3 = (r4, w4)" by (metis surj_pair)
        note t4 = call_Update_trace [OF up]
        show ?thesis
        proof (cases r4)
          case (Some err)
          with assms g e1 found False del up have "res = Returns (Some err)" "w' = w4"
            by (simp_all add: SoftDeleteUser_def validateUserDeletionRules_def)
          moreover from t1 t3 t4 e1 found Some u1 \<open>w' = w4\<close>
          have "new_calls w w' = [Call_GetByID userID (Some user) None,
                                   Call_Update (fst (Delete user w)) (Some err)]"
            by (simp add: new_calls_def)
          ultimately show ?thesis using False gid e1 found by (auto intro: update_failed)
        next
          case None
          note r4 = None
          obtain r5 ar w5 where d: "DispatchEvents (eventDispatcher s) (AggregateRoot user1) w4 = ((r5, ar), w5)"
            by (metis surj_pair)
          from DispatchEvents_run [OF d] obtain ds where ds: "trace w5 = trace w4 @ ds" "dispatch_run r5 ds"
            by blast
          show ?thesis
          proof (cases r5)
            case None
            with assms g e1 found False del up r4 d have "res = Returns None" "w' = w5"
              by (simp_all add: SoftDeleteUser_def validateUserDeletionRules_def)
            moreover from t1 t3 t4 e1 found r4 u1 ds \<open>w' = w5\<close>
            have "new_calls w w' = [Call_GetByID userID (Some user) None,
                                     Call_Update (fst (Delete user w)) None] @ ds"
              by (simp add: new_calls_def)
            ultimately show ?thesis using False ds(2) None gid e1 found by (auto intro: dispatched)
          next
            case (Some err)
            with assms g e1 found False del up r4 d have "res = Returns None"
              "w' = logger_Error ''Failed to dispatch domain events'' err w5"
              by (simp_all add: SoftDeleteUser_def validateUserDeletionRules_def)
            moreover from t1 t3 t4 e1 found r4 u1 ds
              \<open>w' = logger_Error ''Failed to dispatch domain events'' err w5\<close>
            have "new_calls w w' = [Call_GetByID userID (Some user) None,
                                     Call_Update (fst (Delete user w)) None] @ ds @
                                     [Call_LoggerError ''Failed to dispatch domain events'' err]"
              by (simp add: new_calls_def logger_Error_trace)
            ultimately show ?thesis using False ds(2) Some gid e1 found by (auto intro: dispatch_failed)
          qed
        qed
      qed
    qed
  qed
qed

subsection \<open>The repository of the program\<close>




subsection \<open>The example runs, evaluated\<close>

lemmas example_defs =
  example_world_def two_events_def dispatcher_failing_def dispatcher_ok_def
  RegisterHandler_def NewDomainEventDispatcher_def UserCreatedEventHandler_def
  UserDeletedEventHandler_def failing_handler_def accepting_publisher_def
  handler_down_def connection_lost_def

lemmas run_defs =
  DispatchEvents_def DomainEvents_def ClearDomainEvents_def call_Handle_def call_Publish_def
  new_calls_def

lemmas service_defs =
  service_ok_def service_failing_dispatch_def service_failing_lookups_def
  NewUserRepository_def userRepository_Create_def userRepository_GetByID_def
  userRepository_GetByIDIncludeDeleted_def userRepository_GetByEmail_def
  userRepository_GetByUsername_def userRepository_Update_def First_def conflicts_def
  duplicate_key_def
  db_empty_def db_alice_def db_alice_deleted_def db_down_def alice_def alice_deleted_def
  alice_profile_def bob_def IsDeleted_def

lemmas service_run_defs =
  CreateUser_def SoftDeleteUser_def RestoreUser_def validateUserBusinessRules_def
  validateUserDeletionRules_def call_Create_def call_Update_def call_GetByID_def
  call_GetByIDIncludeDeleted_def call_GetByEmail_def call_GetByUsername_def logger_Error_def
  NewUser_eq Delete_eq Restore_def

lemma example_world_simps:
  "uuids (example_world x) n = of_nat n + 100" "uuid_calls (example_world x) = 2"
  "times (example_world x) k = 1000 + int k" "time_calls (example_world x) = 0"
  "ext (example_world x) = x" "trace (example_world x) = []"
  by (simp_all add: example_world_def)

lemma new_calls_example: "new_calls (example_world x) w' = trace w'"
  by (simp add: new_calls_def example_world_def)

lemma run_failing:
  "DispatchEvents dispatcher_failing two_events (example_world ()) =
     ((Some handler_down, two_events),
      (example_world ())\<lparr>trace :=
         [Call_Handle (UserCreatedEvent 7 ''alice@example.com'' ''alice'' 10) None,
          Call_Handle (UserCreatedEvent 7 ''alice@example.com'' ''alice'' 10) (Some handler_down)]\<rparr>)"
  by (simp add: example_defs run_defs)

lemma run_ok:
  "DispatchEvents dispatcher_ok two_events (example_world ()) =
     ((None, \<lparr>domainEvents = []\<rparr>),
      (example_world ())\<lparr>trace :=
         [Call_Handle (UserCreatedEvent 7 ''alice@example.com'' ''alice'' 10) None,
          Call_Handle (UserDeletedEvent 7 20) None,
          Call_Publish (domainEvents two_events) None]\<rparr>)"
  by (simp add: example_defs run_defs)

lemma NewUser_bob: "fst (NewUser ''bob@example.com'' ''bob'' ''Bob'' ''Builder'' (example_world x)) = bob"
  by (simp add: NewUser_eq example_world_def bob_def)

lemma create_bob_handler_down_eq:
  "fst create_bob_handler_down = (Some bob, None)"
  "trace (snd create_bob_handler_down) =
     [Call_GetByEmail ''bob@example.com'' None (Some (errors_New ''user not found'')),
      Call_GetByUsername ''bob'' None (Some (errors_New ''user not found'')),
      Call_Create bob None,
      Call_Handle (UserCreatedEvent 102 ''bob@example.com'' ''bob'' 1002) None,
      Call_Handle (UserCreatedEvent 102 ''bob@example.com'' ''bob'' 1002) (Some handler_down),
      Call_LoggerError ''Failed to dispatch domain events'' handler_down]"
  "rows (ext (snd create_bob_handler_down)) = [alice, bob]"
  by (simp_all add: create_bob_handler_down_def example_defs run_defs service_defs service_run_defs)

lemma create_bob_store_down_eq:
  "fst create_bob_store_down = (None, Some connection_lost)"
  "trace (snd create_bob_store_down) =
     [Call_GetByEmail ''bob@example.com'' None (Some connection_lost),
      Call_GetByUsername ''bob'' None (Some connection_lost),
      Call_Create bob (Some connection_lost)]"
  by (simp_all add: create_bob_store_down_def example_defs run_defs service_defs service_run_defs)

lemma create_bob_eq:
  "fst create_bob = (Some (bob\<lparr>AggregateRoot := \<lparr>domainEvents = []\<rparr>\<rparr>), None)"
  "trace (snd create_bob) =
     [Call_GetByEmail ''bob@example.com'' None (Some (errors_New ''user not found'')),
      Call_GetByUsername ''bob'' None (Some (errors_New ''user not found'')),
      Call_Create bob None,
      Call_Handle (UserCreatedEvent 102 ''bob@example.com'' ''bob'' 1002) None,
      Call_Publish [UserCreatedEvent 102 ''bob@example.com'' ''bob'' 1002] None]"
  by (simp_all add: create_bob_def example_defs run_defs service_defs service_run_defs)

lemma create_alice_again_eq:
  "fst create_alice_again = (None, Some duplicate_key)"
  "rows (ext (snd create_alice_again)) = [alice]"
  "trace (snd create_alice_again) =
     [Call_GetByEmail ''alice@example.com'' None (Some connection_lost),
      Call_GetByUsername ''alice'' None (Some connection_lost),
      Call_Create (fst (NewUser ''alice@example.com'' ''alice'' ''Alice'' ''Again'' (example_world db_alice)))
        (Some duplicate_key)]"
  by (simp_all add: create_alice_again_def example_defs run_defs service_defs service_run_defs)

lemma create_alice_duplicate_eq:
  "fst create_alice_duplicate = (None, Some (errors_New ''email already exists''))"
  "trace (snd create_alice_duplicate) = [Call_GetByEmail ''alice@example.com'' (Some alice) None]"
  by (simp_all add: create_alice_duplicate_def example_defs run_defs service_defs service_run_defs)

lemma delete_alice_handler_down_eq:
  "fst delete_alice_handler_down = Returns None"
  "trace (snd delete_alice_handler_down) =
     [Call_GetByID 7 (Some alice) None,
      Call_Update (fst (Delete alice (example_world db_alice))) None,
      Call_Handle (UserDeletedEvent 7 1001) (Some handler_down),
      Call_LoggerError ''Failed to dispatch domain events'' handler_down]"
  "map IsDeleted (rows (ext (snd delete_alice_handler_down))) = [True]"
  by (simp_all add: delete_alice_handler_down_def example_defs run_defs service_defs service_run_defs)




lemma alice_deleted_twice_eq:
  "fst alice_deleted_once =
     alice\<lparr>DeletedAt := Some 1000, IsActive := False,
           AggregateRoot := \<lparr>domainEvents = [UserDeletedEvent 7 1001]\<rparr>\<rparr>"
  "fst alice_deleted_twice =
     alice\<lparr>DeletedAt := Some 1002, IsActive := False,
           AggregateRoot := \<lparr>domainEvents = [UserDeletedEvent 7 1001, UserDeletedEvent 7 1003]\<rparr>\<rparr>"
  by (simp_all add: alice_deleted_twice_def alice_deleted_once_def Delete_eq example_world_def alice_def)

section \<open>The claims\<close>

subsection \<open>C1: a handler error aborts the dispatch and keeps the buffer\<close>

text \<open>
  C1. \<open>DispatchEvents\<close> on a buffer of at least one event. When a call of
  \<open>Handle\<close> returns an error, \<open>DispatchEvents\<close> returns that error, the failing call is the
  last call it makes, the aggregate root is left as it was (all its events are still
  buffered) and \<open>Publish\<close> is not called. The buffer is empty afterwards exactly when
  \<open>DispatchEvents\<close> returns nil, and then every call it made succeeded, among them the
  call of \<open>Publish\<close> with the whole batch when a publisher is configured.
\<close>

theorem DispatchEvents_handler_error_keeps_buffer:
  assumes "DomainEvents ar \<noteq> []" and "DispatchEvents d ar w = ((r, ar'), w')"
  shows "(Call_Handle event (Some err) \<in> set (new_calls w w') \<longrightarrow>
            r = Some err \<and> ar' = ar \<and> last (trace w') = Call_Handle event (Some err) \<and>
            (\<forall>c \<in> set (new_calls w w'). \<not> is_Publish c))
       \<and> (DomainEvents ar' = [] \<longleftrightarrow> r = None)
       \<and> (r = None \<longrightarrow> (\<forall>c \<in> set (new_calls w w'). call_error c = None) \<and>
             (publisher d \<noteq> None \<longrightarrow> Call_Publish (DomainEvents ar) None \<in> set (new_calls w w')))"
  using assms(2)
proof (cases rule: DispatchEvents_cases)
  case empty
  with assms(1) show ?thesis by simp
next
  case (handler_failed err' cs)
  note n = new_calls_append [OF handler_failed(4)]
  from handler_failed(5) have ro: "run_outcome (Some err') cs" and ne: "cs \<noteq> []"
    by (simp_all add: handler_run_def run_outcome_def)
  have "r = Some err \<and> ar' = ar \<and> last (trace w') = Call_Handle event (Some err) \<and>
        (\<forall>c \<in> set (new_calls w w'). \<not> is_Publish c)"
    if "Call_Handle event (Some err) \<in> set (new_calls w w')"
  proof -
    from that n have "Call_Handle event (Some err) \<in> set cs" by simp
    from run_outcome_failed_last [OF ro this, of err]
    have "Call_Handle event (Some err) = last cs" "err = err'"
      by auto
    moreover from ne handler_failed(4) have "last (trace w') = last cs" by simp
    ultimately show ?thesis
      using handler_failed(2,3) n handler_run_not_Publish [OF handler_failed(5)] by auto
  qed
  with handler_failed(1,2,3) assms(1) show ?thesis by auto
next
  case (publish_failed err' cs p)
  note n = new_calls_append [OF publish_failed(5)]
  from publish_failed(6) have "run_outcome None cs" by (simp add: handler_run_def)
  then have "Call_Handle event (Some err) \<notin> set cs"
    by (auto dest: run_outcome_ok_all)
  with n publish_failed(2,3) assms(1) show ?thesis by auto
next
  case (published cs p)
  note n = new_calls_append [OF published(5)]
  from published(6) have ro: "run_outcome None cs" by (simp add: handler_run_def)
  then have "\<forall>c\<in>set cs. call_error c = None" by (auto dest: run_outcome_ok_all)
  with n published(2,3) show ?thesis by (auto simp: ClearDomainEvents_def DomainEvents_def)
next
  case (no_publisher cs)
  note n = new_calls_append [OF no_publisher(5)]
  from no_publisher(6) have ro: "run_outcome None cs" by (simp add: handler_run_def)
  then have "\<forall>c\<in>set cs. call_error c = None" by (auto dest: run_outcome_ok_all)
  with n no_publisher(2,3,4) show ?thesis by (auto simp: ClearDomainEvents_def DomainEvents_def)
qed

text \<open>
  C1 on two runs over a buffer of two events: in the first the second handler fails on the
  first event, in the second both handlers and the publisher succeed.
\<close>

theorem DispatchEvents_handler_error_keeps_buffer_witness:
  "DomainEvents two_events \<noteq> [] \<and>
   Call_Handle (UserCreatedEvent 7 ''alice@example.com'' ''alice'' 10) (Some handler_down)
     \<in> set (new_calls (example_world ()) (snd (DispatchEvents dispatcher_failing two_events (example_world ())))) \<and>
   fst (DispatchEvents dispatcher_failing two_events (example_world ())) = (Some handler_down, two_events) \<and>
   length (DomainEvents (snd (fst (DispatchEvents dispatcher_failing two_events (example_world ()))))) = 2 \<and>
   list_all (\<lambda>c. \<not> is_Publish c)
     (new_calls (example_world ()) (snd (DispatchEvents dispatcher_failing two_events (example_world ())))) \<and>
   fst (DispatchEvents dispatcher_ok two_events (example_world ())) = (None, \<lparr>domainEvents = []\<rparr>) \<and>
   list_all (\<lambda>c. call_error c = None)
     (new_calls (example_world ()) (snd (DispatchEvents dispatcher_ok two_events (example_world ())))) \<and>
   Call_Publish (DomainEvents two_events) None
     \<in> set (new_calls (example_world ()) (snd (DispatchEvents dispatcher_ok two_events (example_world ()))))"
proof -
  have ne: "DomainEvents two_events \<noteq> []" by (simp add: two_events_def DomainEvents_def)
  have pub: "publisher (dispatcher_ok :: unit DomainEventDispatcher) \<noteq> None"
    by (simp add: example_defs)
  have f: "DispatchEvents dispatcher_failing two_events (example_world ()) =
             ((Some handler_down, two_events), snd (DispatchEvents dispatcher_failing two_events (example_world ())))"
    by (simp add: run_failing)
  have k: "DispatchEvents dispatcher_ok two_events (example_world ()) =
             ((None, \<lparr>domainEvents = []\<rparr>), snd (DispatchEvents dispatcher_ok two_events (example_world ())))"
    by (simp add: run_ok)
  have m: "Call_Handle (UserCreatedEvent 7 ''alice@example.com'' ''alice'' 10) (Some handler_down)
     \<in> set (new_calls (example_world ()) (snd (DispatchEvents dispatcher_failing two_events (example_world ()))))"
    by (simp add: run_failing new_calls_example)
  have len: "length (DomainEvents two_events) = 2" by (simp add: two_events_def DomainEvents_def)
  from DispatchEvents_handler_error_keeps_buffer [OF ne f, of "UserCreatedEvent 7 ''alice@example.com'' ''alice'' 10" handler_down]
       DispatchEvents_handler_error_keeps_buffer [OF ne k, of "UserDeletedEvent 7 20" handler_down] ne m pub len
  show ?thesis by (simp add: new_calls_example run_failing run_ok)
qed

subsection \<open>C2: a dispatch error after a successful write\<close>

text \<open>
  C2 as stated fails. Creating bob and deleting alice while a handler is down: the write
  succeeds, a call of \<open>Handle\<close> returns an error, and the service operation returns nil
  all the same.
\<close>

theorem dispatch_error_is_swallowed_counterexample:
  "fst create_bob_handler_down = (Some bob, None) \<and>
   Call_Create bob None \<in> set (trace (snd create_bob_handler_down)) \<and>
   Call_Handle (UserCreatedEvent 102 ''bob@example.com'' ''bob'' 1002) (Some handler_down)
     \<in> set (trace (snd create_bob_handler_down)) \<and>
   fst delete_alice_handler_down = Returns None \<and>
   Call_Update (fst (Delete alice (example_world db_alice))) None
     \<in> set (trace (snd delete_alice_handler_down)) \<and>
   Call_Handle (UserDeletedEvent 7 1001) (Some handler_down)
     \<in> set (trace (snd delete_alice_handler_down))"
  by (simp add: create_bob_handler_down_eq delete_alice_handler_down_eq)

text \<open>
  C2, amended. When the write of \<open>CreateUser\<close> or \<open>SoftDeleteUser\<close> succeeds and a call the
  dispatcher makes then fails with \<open>err\<close>, the operation reports success (\<open>CreateUser\<close>
  returns the user and a nil error, \<open>SoftDeleteUser\<close> returns nil), and \<open>err\<close> goes to
  \<open>logger.Error\<close> as the last call. After the successful write the operation calls the
  dispatcher's collaborators and the logger only: no call to the repository undoes it.
\<close>

theorem dispatch_error_is_logged_and_write_kept:
  "(CreateUser s email username firstName lastName w = (res, w') \<and>
    c \<in> set (new_calls w w') \<and> is_dispatch c \<and> call_error c = Some err \<longrightarrow>
      (\<exists>ar. res = (Some ((fst (NewUser email username firstName lastName w))\<lparr>AggregateRoot := ar\<rparr>), None)) \<and>
      (\<exists>vs ds. new_calls w w' =
                   vs @ [Call_Create (fst (NewUser email username firstName lastName w)) None] @ ds @
                   [Call_LoggerError ''Failed to dispatch domain events'' err] \<and>
                 list_all is_lookup vs \<and> list_all is_dispatch ds))
 \<and> (SoftDeleteUser s userID w = (out, w'') \<and>
    d \<in> set (new_calls w w'') \<and> is_dispatch d \<and> call_error d = Some err' \<longrightarrow>
      out = Returns None \<and>
      (\<exists>user ds. new_calls w w'' =
                   [Call_GetByID userID (Some user) None, Call_Update (fst (Delete user w)) None] @ ds @
                   [Call_LoggerError ''Failed to dispatch domain events'' err'] \<and>
                 list_all is_dispatch ds))"
proof -
  have create:
    "(\<exists>ar. res = (Some ((fst (NewUser email username firstName lastName w))\<lparr>AggregateRoot := ar\<rparr>), None)) \<and>
     (\<exists>vs ds. new_calls w w' =
                   vs @ [Call_Create (fst (NewUser email username firstName lastName w)) None] @ ds @
                   [Call_LoggerError ''Failed to dispatch domain events'' err] \<and>
                 list_all is_lookup vs \<and> list_all is_dispatch ds)"
    if run: "CreateUser s email username firstName lastName w = (res, w')"
      and c: "c \<in> set (new_calls w w')" "is_dispatch c" "call_error c = Some err"
    using run
  proof (cases rule: CreateUser_cases)
    case (rejected err0 vs)
    from validation_run_lookups [OF rejected(3)] rejected(2) c(1,2) show ?thesis
      by (auto dest: lookup_error_free)
  next
    case (create_failed err0 vs)
    from validation_run_lookups [OF create_failed(3)] create_failed(2) c(1,2) show ?thesis
      by (auto dest: lookup_error_free simp: is_dispatch_def)
  next
    case (dispatched vs ds ar)
    note l = validation_run_lookups [OF dispatched(3)]
    from l dispatched(2) c(1,2) have "c \<in> set ds"
      by (auto dest: lookup_error_free simp: is_dispatch_def)
    from failed_dispatch_call [OF dispatched(4) this c(3)] show ?thesis by simp
  next
    case (dispatch_failed vs ds err0 ar)
    note l = validation_run_lookups [OF dispatch_failed(3)]
    from l dispatch_failed(2) c(1,2) have "c \<in> set ds"
      by (auto dest: lookup_error_free simp: is_dispatch_def)
    from failed_dispatch_call [OF dispatch_failed(4) this c(3)] have "err0 = err" by simp
    with dispatch_failed(1,2) l dispatch_run_list_all [OF dispatch_failed(4)] show ?thesis by blast
  qed
  have delete:
    "out = Returns None \<and>
     (\<exists>user ds. new_calls w w'' =
                   [Call_GetByID userID (Some user) None, Call_Update (fst (Delete user w)) None] @ ds @
                   [Call_LoggerError ''Failed to dispatch domain events'' err'] \<and>
                 list_all is_dispatch ds)"
    if run: "SoftDeleteUser s userID w = (out, w'')"
      and d: "d \<in> set (new_calls w w'')" "is_dispatch d" "call_error d = Some err'"
    using run
  proof (cases rule: SoftDeleteUser_cases)
    case (load_failed found err0)
    with d(1,2) show ?thesis by (simp add: is_dispatch_def)
  next
    case nil_user
    with d(1,2) show ?thesis by (simp add: is_dispatch_def)
  next
    case (already_deleted user)
    with d(1,2) show ?thesis by (simp add: is_dispatch_def)
  next
    case (update_failed user err0)
    with d(1,2) show ?thesis by (auto simp: is_dispatch_def)
  next
    case (dispatched user ds)
    from dispatched(3) d(1,2) have "d \<in> set ds" by (auto simp: is_dispatch_def)
    from failed_dispatch_call [OF dispatched(4) this d(3)] show ?thesis by simp
  next
    case (dispatch_failed user ds err0)
    from dispatch_failed(3) d(1,2) have "d \<in> set ds" by (auto simp: is_dispatch_def)
    from failed_dispatch_call [OF dispatch_failed(4) this d(3)] have "err0 = err'" by simp
    with dispatch_failed(1,3) dispatch_run_list_all [OF dispatch_failed(4)] show ?thesis by blast
  qed
  from create delete show ?thesis by blast
qed

text \<open>
  C2 amended, on the two runs above: the rows written are in the store afterwards.
\<close>

theorem dispatch_error_is_logged_and_write_kept_witness:
  "Call_Handle (UserCreatedEvent 102 ''bob@example.com'' ''bob'' 1002) (Some handler_down)
     \<in> set (new_calls (example_world db_alice) (snd create_bob_handler_down)) \<and>
   fst create_bob_handler_down = (Some bob, None) \<and>
   (\<exists>vs ds. new_calls (example_world db_alice) (snd create_bob_handler_down) =
               vs @ [Call_Create bob None] @ ds @
               [Call_LoggerError ''Failed to dispatch domain events'' handler_down] \<and>
             list_all is_lookup vs \<and> list_all is_dispatch ds) \<and>
   rows (ext (snd create_bob_handler_down)) = [alice, bob] \<and>
   Call_Handle (UserDeletedEvent 7 1001) (Some handler_down)
     \<in> set (new_calls (example_world db_alice) (snd delete_alice_handler_down)) \<and>
   fst delete_alice_handler_down = Returns None \<and>
   (\<exists>user ds. new_calls (example_world db_alice) (snd delete_alice_handler_down) =
               [Call_GetByID 7 (Some user) None,
                Call_Update (fst (Delete user (example_world db_alice))) None] @ ds @
               [Call_LoggerError ''Failed to dispatch domain events'' handler_down] \<and>
             list_all is_dispatch ds) \<and>
   map IsDeleted (rows (ext (snd delete_alice_handler_down))) = [True]"
proof -
  have c1: "CreateUser service_failing_dispatch ''bob@example.com'' ''bob'' ''Bob'' ''Builder''
              (example_world db_alice) = (fst create_bob_handler_down, snd create_bob_handler_down)"
    by (simp add: create_bob_handler_down_def)
  have c2: "Call_Handle (UserCreatedEvent 102 ''bob@example.com'' ''bob'' 1002) (Some handler_down)
              \<in> set (new_calls (example_world db_alice) (snd create_bob_handler_down))"
    by (simp add: new_calls_example create_bob_handler_down_eq)
  have d1: "SoftDeleteUser service_failing_dispatch 7 (example_world db_alice) =
              (fst delete_alice_handler_down, snd delete_alice_handler_down)"
    by (simp add: delete_alice_handler_down_def)
  have d2: "Call_Handle (UserDeletedEvent 7 1001) (Some handler_down)
              \<in> set (new_calls (example_world db_alice) (snd delete_alice_handler_down))"
    by (simp add: new_calls_example delete_alice_handler_down_eq)
  note inst = dispatch_error_is_logged_and_write_kept
    [where s = service_failing_dispatch and email = "''bob@example.com''" and username = "''bob''"
       and firstName = "''Bob''" and lastName = "''Builder''" and w = "example_world db_alice"
       and res = "fst create_bob_handler_down" and w' = "snd create_bob_handler_down"
       and c = "Call_Handle (UserCreatedEvent 102 ''bob@example.com'' ''bob'' 1002) (Some handler_down)"
       and err = handler_down and userID = 7
       and out = "fst delete_alice_handler_down" and w'' = "snd delete_alice_handler_down"
       and d = "Call_Handle (UserDeletedEvent 7 1001) (Some handler_down)"
       and err' = handler_down]
  from inst c1 c2 d1 d2 show ?thesis
    by (simp add: is_dispatch_def NewUser_bob create_bob_handler_down_eq delete_alice_handler_down_eq)
qed

subsection \<open>C3: SoftDeleteUser and a record that is already deleted\<close>



subsection \<open>C4: a second delete on the same instance\<close>

text \<open>
  C4 as stated fails. alice is deleted twice in a row: the second \<open>Delete\<close> finds her
  deleted, sets \<open>DeletedAt\<close> again and appends a second \<open>UserDeletedEvent\<close>.
\<close>

theorem second_delete_appends_second_event_counterexample:
  "IsDeleted (fst alice_deleted_once) \<and>
   DeletedAt (fst alice_deleted_twice) = Some 1002 \<and>
   DomainEvents (AggregateRoot (fst alice_deleted_twice)) =
     [UserDeletedEvent 7 1001, UserDeletedEvent 7 1003]"
  by (simp add: alice_deleted_twice_eq IsDeleted_def DomainEvents_def)

text \<open>
  C4, amended. \<open>SoftDelete\<close> has no error result: whatever the state before, it sets
  \<open>DeletedAt\<close> to the current time. Every \<open>Delete\<close> appends exactly one
  \<open>UserDeletedEvent\<close> to the buffer, a second \<open>Delete\<close> on the same instance included.
  The error ``user is already deleted'' is the service's: \<open>validateUserDeletionRules\<close>
  returns it for a user that is deleted, and nil otherwise.
\<close>

theorem delete_is_unconditional_service_guards:
  "SoftDelete be w = (be\<lparr>DeletedAt := Some (times w (time_calls w))\<rparr>, w\<lparr>time_calls := Suc (time_calls w)\<rparr>)
 \<and> IsDeleted (fst (SoftDelete be w))
 \<and> IsDeleted (fst (Delete u w))
 \<and> DomainEvents (AggregateRoot (fst (Delete u w))) =
     DomainEvents (AggregateRoot u) @ [UserDeletedEvent (ID u) (times w (Suc (time_calls w)))]
 \<and> (IsDeleted u \<longrightarrow>
       validateUserDeletionRules s u w = (Some (errors_New ''user is already deleted''), w))
 \<and> (\<not> IsDeleted u \<longrightarrow> validateUserDeletionRules s u w = (None, w))"
  by (simp add: SoftDelete_def time_Now_def Delete_eq IsDeleted_def DomainEvents_def
      validateUserDeletionRules_def)

text \<open>
  C4 amended, on alice deleted and on alice active.
\<close>

theorem delete_is_unconditional_service_guards_witness:
  "IsDeleted alice_deleted \<and>
   fst (SoftDelete alice_deleted (example_world db_alice_deleted)) = alice_deleted\<lparr>DeletedAt := Some 1000\<rparr> \<and>
   DomainEvents (AggregateRoot (fst (Delete alice_deleted (example_world db_alice_deleted)))) =
     [UserDeletedEvent 7 1001] \<and>
   validateUserDeletionRules service_ok alice_deleted (example_world db_alice_deleted) =
     (Some (errors_New ''user is already deleted''), example_world db_alice_deleted) \<and>
   \<not> IsDeleted alice \<and>
   validateUserDeletionRules service_ok alice (example_world db_alice) = (None, example_world db_alice)"
proof -
  have d: "IsDeleted alice_deleted" and a: "\<not> IsDeleted alice"
    by (simp_all add: alice_deleted_def alice_def IsDeleted_def)
  have ev: "DomainEvents (AggregateRoot alice_deleted) = []" "ID alice_deleted = 7"
    by (simp_all add: alice_deleted_def alice_def DomainEvents_def)
  have t: "times (example_world db_alice_deleted) (time_calls (example_world db_alice_deleted)) = 1000"
    "times (example_world db_alice_deleted) (Suc (time_calls (example_world db_alice_deleted))) = 1001"
    by (simp_all add: example_world_def)
  from delete_is_unconditional_service_guards
         [of alice_deleted "example_world db_alice_deleted" alice_deleted service_ok]
       delete_is_unconditional_service_guards
         [of alice "example_world db_alice" alice service_ok]
       d a ev t
  show ?thesis by simp
qed

subsection \<open>C5: restoring a user that is not deleted\<close>

text \<open>
  C5. When the lookup of \<open>RestoreUser\<close> returns a user whose \<open>DeletedAt\<close> is nil,
  \<open>RestoreUser\<close> returns the error ``user is not deleted''. The lookup is the only call
  it makes: nothing is written to the repository, and the world is the one the lookup left.
  The user is not changed (\<open>Restore\<close> itself, which has no error result, maps such a user
  to itself).
\<close>

theorem RestoreUser_active_user_fails:
  assumes "GetByIDIncludeDeleted (userRepo s) userID (ext w) = ((Some user, None), x)"
    and "DeletedAt user = None"
  shows "RestoreUser s userID w =
           (Returns (Some (errors_New ''user is not deleted'')),
            w\<lparr>ext := x, trace := trace w @ [Call_GetByIDIncludeDeleted userID (Some user) None]\<rparr>)
       \<and> list_all (\<lambda>c. \<not> is_write c) (new_calls w (snd (RestoreUser s userID w)))
       \<and> \<not> IsDeleted user \<and> Restore user = user"
proof -
  from assms have run: "RestoreUser s userID w =
           (Returns (Some (errors_New ''user is not deleted'')),
            w\<lparr>ext := x, trace := trace w @ [Call_GetByIDIncludeDeleted userID (Some user) None]\<rparr>)"
    by (simp add: RestoreUser_def call_GetByIDIncludeDeleted_def IsDeleted_def)
  moreover have "list_all (\<lambda>c. \<not> is_write c) (new_calls w (snd (RestoreUser s userID w)))"
    by (simp add: run new_calls_def)
  moreover from assms(2) have "\<not> IsDeleted user" by (simp add: IsDeleted_def)
  moreover from assms(2) have "Restore user = user" by (cases user) (simp add: Restore_def)
  ultimately show ?thesis by simp
qed

text \<open>
  C5 on alice, active in the store: the store is the same afterwards.
\<close>

theorem RestoreUser_active_user_fails_witness:
  "GetByIDIncludeDeleted (userRepo service_ok) 7 (ext (example_world db_alice)) = ((Some alice, None), db_alice) \<and>
   DeletedAt alice = None \<and>
   fst restore_alice_active = Returns (Some (errors_New ''user is not deleted'')) \<and>
   trace (snd restore_alice_active) = [Call_GetByIDIncludeDeleted 7 (Some alice) None] \<and>
   ext (snd restore_alice_active) = db_alice \<and>
   Restore alice = alice"
proof -
  have g: "GetByIDIncludeDeleted (userRepo service_ok) 7 (ext (example_world db_alice)) =
             ((Some alice, None), db_alice)"
    by (simp add: service_defs example_world_def)
  have a: "DeletedAt alice = None" by (simp add: alice_def)
  from RestoreUser_active_user_fails [OF g a] g a show ?thesis
    by (simp add: restore_alice_active_def example_world_def)
qed

subsection \<open>C6: the factory NewUser\<close>

text \<open>
  C6. For every email, username, first and last name, \<open>NewUser\<close> returns a user whose
  identifier is the result of a new call of \<open>uuid.New()\<close> (so it differs from every
  identifier drawn before, as long as the generator has not repeated itself), whose
  \<open>DeletedAt\<close> is nil, for which \<open>IsDeleted\<close> is false, and whose buffer holds exactly one
  event, a \<open>UserCreatedEvent\<close> with that identifier. It calls no collaborator and leaves
  their state alone.
\<close>

theorem NewUser_fresh_active_one_event:
  "ID (fst (NewUser email username firstName lastName w)) = uuids w (uuid_calls w)
 \<and> uuid_calls (snd (NewUser email username firstName lastName w)) = Suc (uuid_calls w)
 \<and> (inj_on (uuids w) {..uuid_calls w} \<longrightarrow>
       ID (fst (NewUser email username firstName lastName w)) \<notin> uuids w ` {..<uuid_calls w})
 \<and> DeletedAt (fst (NewUser email username firstName lastName w)) = None
 \<and> \<not> IsDeleted (fst (NewUser email username firstName lastName w))
 \<and> DomainEvents (AggregateRoot (fst (NewUser email username firstName lastName w))) =
     [UserCreatedEvent (ID (fst (NewUser email username firstName lastName w))) email username
        (times w (time_calls w + 2))]
 \<and> trace (snd (NewUser email username firstName lastName w)) = trace w
 \<and> ext (snd (NewUser email username firstName lastName w)) = ext w"
proof -
  have "uuids w (uuid_calls w) \<notin> uuids w ` {..<uuid_calls w}"
    if inj: "inj_on (uuids w) {..uuid_calls w}"
  proof
    assume "uuids w (uuid_calls w) \<in> uuids w ` {..<uuid_calls w}"
    then obtain n where n: "n < uuid_calls w" "uuids w (uuid_calls w) = uuids w n" by auto
    with inj have "uuid_calls w = n" by (auto dest: inj_onD)
    with n(1) show False by simp
  qed
  then show ?thesis by (simp add: NewUser_eq IsDeleted_def DomainEvents_def)
qed

text \<open>
  C6 on bob, after the identifiers 100 and 101 have been drawn.
\<close>

theorem NewUser_fresh_active_one_event_witness:
  "inj_on (uuids (example_world ())) {..uuid_calls (example_world ())} \<and>
   uuids (example_world ()) ` {..<uuid_calls (example_world ())} = {100, 101} \<and>
   fst (NewUser ''bob@example.com'' ''bob'' ''Bob'' ''Builder'' (example_world ())) = bob \<and>
   ID bob = 102 \<and> ID bob \<notin> {100, 101 :: uuid} \<and> DeletedAt bob = None \<and>
   DomainEvents (AggregateRoot bob) = [UserCreatedEvent 102 ''bob@example.com'' ''bob'' 1002] \<and>
   trace (snd (NewUser ''bob@example.com'' ''bob'' ''Bob'' ''Builder'' (example_world ()))) = []"
proof -
  have two: "{..(2::nat)} = {0, 1, 2}" "{..<(2::nat)} = {0, 1}" by auto
  have inj: "inj_on (uuids (example_world ())) {..uuid_calls (example_world ())}"
    by (simp add: example_world_def two)
  have img: "uuids (example_world ()) ` {..<uuid_calls (example_world ())} = {100, 101}"
    by (simp add: example_world_def two)
  have b: "ID bob = 102" "DeletedAt bob = None"
    "DomainEvents (AggregateRoot bob) = [UserCreatedEvent 102 ''bob@example.com'' ''bob'' 1002]"
    by (simp_all add: bob_def DomainEvents_def)
  from NewUser_fresh_active_one_event
         [of "''bob@example.com''" "''bob''" "''Bob''" "''Builder''" "example_world ()"] inj img b
  show ?thesis by (simp add: NewUser_bob example_world_simps)
qed

subsection \<open>C7: delete and the owned profile\<close>

text \<open>
  C7 fails on the code. alice owns a profile that is not deleted; after \<open>Delete\<close> alice
  is deleted and her profile is the same as before, not deleted. (\<open>Delete_keeps_Profile\<close>
  above: \<open>Delete\<close> never changes the field \<open>Profile\<close>.)
\<close>

theorem Delete_does_not_cascade_to_Profile:
  "IsDeleted (fst alice_deleted_once) \<and>
   Profile (fst alice_deleted_once) = Some alice_profile \<and>
   \<not> IsDeleted alice_profile"
  by (simp add: alice_deleted_twice_eq alice_def alice_profile_def IsDeleted_def)

subsection \<open>C8: persist before dispatch\<close>

text \<open>
  C8. In every run of \<open>CreateUser\<close>: when \<open>Create\<close> returns an error, \<open>CreateUser\<close>
  returns that error with no user, the failing \<open>Create\<close> is its last call, and no event has
  been handed to a handler or to the publisher. When an event is handed to a handler or to
  the publisher, the calls before it are the uniqueness lookups and then a \<open>Create\<close> of
  the new user that returned nil.
\<close>

theorem CreateUser_persists_before_dispatch:
  assumes "CreateUser s email username firstName lastName w = (res, w')"
  shows "(Call_Create user (Some err) \<in> set (new_calls w w') \<longrightarrow>
            res = (None, Some err) \<and>
            last (new_calls w w') = Call_Create user (Some err) \<and>
            (\<forall>c \<in> set (new_calls w w'). \<not> is_dispatch c))
       \<and> ((\<exists>c \<in> set (new_calls w w'). is_dispatch c) \<longrightarrow>
            (\<exists>vs after.
               new_calls w w' =
                 vs @ [Call_Create (fst (NewUser email username firstName lastName w)) None] @ after \<and>
               list_all is_lookup vs))"
  using assms
proof (cases rule: CreateUser_cases)
  case (rejected err' vs)
  from validation_run_lookups [OF rejected(3)] rejected(2)
  have "\<forall>c \<in> set (new_calls w w'). \<not> is_dispatch c \<and> \<not> is_write c"
    by (auto dest: lookup_not_dispatch)
  then show ?thesis by force
next
  case (create_failed err' vs)
  note l = validation_run_lookups [OF create_failed(3)]
  have "\<forall>c \<in> set vs. \<not> is_dispatch c \<and> \<not> is_write c"
    using l by (auto dest: lookup_not_dispatch)
  with create_failed(1,2) show ?thesis by (force simp: is_dispatch_def)
next
  case (dispatched vs ds ar)
  note l = validation_run_lookups [OF dispatched(3)]
  have "\<forall>c \<in> set vs. \<not> is_dispatch c \<and> \<not> is_write c"
    using l by (auto dest: lookup_not_dispatch)
  moreover have "\<forall>c \<in> set ds. \<not> is_write c"
    using dispatched(4) by (auto dest: dispatch_run_calls dispatch_not_write)
  ultimately have "Call_Create user (Some err) \<notin> set (new_calls w w')"
    using dispatched(2) by force
  with dispatched(2) l show ?thesis by auto
next
  case (dispatch_failed vs ds err' ar)
  note l = validation_run_lookups [OF dispatch_failed(3)]
  have "\<forall>c \<in> set vs. \<not> is_dispatch c \<and> \<not> is_write c"
    using l by (auto dest: lookup_not_dispatch)
  moreover have "\<forall>c \<in> set ds. \<not> is_write c"
    using dispatch_failed(4) by (auto dest: dispatch_run_calls dispatch_not_write)
  ultimately have "Call_Create user (Some err) \<notin> set (new_calls w w')"
    using dispatch_failed(2) by force
  with dispatch_failed(2) l show ?thesis by auto
qed

text \<open>
  C8 on bob created while the store is down, and on bob created on an empty store.
\<close>

theorem CreateUser_persists_before_dispatch_witness:
  "Call_Create bob (Some connection_lost) \<in> set (new_calls (example_world db_down) (snd create_bob_store_down)) \<and>
   fst create_bob_store_down = (None, Some connection_lost) \<and>
   last (new_calls (example_world db_down) (snd create_bob_store_down)) = Call_Create bob (Some connection_lost) \<and>
   list_all (\<lambda>c. \<not> is_dispatch c) (new_calls (example_world db_down) (snd create_bob_store_down)) \<and>
   list_ex is_dispatch (new_calls (example_world db_empty) (snd create_bob)) \<and>
   (\<exists>vs after. new_calls (example_world db_empty) (snd create_bob) = vs @ [Call_Create bob None] @ after \<and>
                list_all is_lookup vs)"
proof -
  have down: "CreateUser service_ok ''bob@example.com'' ''bob'' ''Bob'' ''Builder'' (example_world db_down) =
                (fst create_bob_store_down, snd create_bob_store_down)"
    by (simp add: create_bob_store_down_def)
  have up: "CreateUser service_ok ''bob@example.com'' ''bob'' ''Bob'' ''Builder'' (example_world db_empty) =
                (fst create_bob, snd create_bob)"
    by (simp add: create_bob_def)
  have failed: "Call_Create bob (Some connection_lost)
                  \<in> set (new_calls (example_world db_down) (snd create_bob_store_down))"
    by (simp add: new_calls_example create_bob_store_down_eq)
  have some: "\<exists>c \<in> set (new_calls (example_world db_empty) (snd create_bob)). is_dispatch c"
    by (simp add: new_calls_example create_bob_eq is_dispatch_def)
  from CreateUser_persists_before_dispatch [OF down, of bob connection_lost]
       CreateUser_persists_before_dispatch [OF up, of bob connection_lost] failed some
  show ?thesis
    by (simp add: NewUser_bob list_all_iff list_ex_iff)
qed

subsection \<open>C9: delete, then restore\<close>

text \<open>
  C9. For every user that is not deleted, \<open>IsDeleted\<close> is true after \<open>Delete\<close> and
  false again after \<open>Restore\<close>.
\<close>

theorem delete_then_restore_is_not_deleted:
  assumes "\<not> IsDeleted u"
  shows "IsDeleted (fst (Delete u w)) \<and> \<not> IsDeleted (Restore (fst (Delete u w)))"
  using assms by (simp add: Delete_eq IsDeleted_def Restore_def)

text \<open>
  C9 on alice.
\<close>

theorem delete_then_restore_is_not_deleted_witness:
  "\<not> IsDeleted alice \<and>
   IsDeleted (fst (Delete alice (example_world ()))) \<and>
   \<not> IsDeleted (Restore (fst (Delete alice (example_world ()))))"
proof -
  have a: "\<not> IsDeleted alice" by (simp add: alice_def IsDeleted_def)
  from delete_then_restore_is_not_deleted [OF a, of "example_world ()"] a show ?thesis by simp
qed

subsection \<open>C10: a failing uniqueness lookup\<close>

text \<open>
  C10. In every run of \<open>CreateUser\<close>: when \<open>GetByEmail\<close> returns an error, whatever
  the error, the email check passes and \<open>GetByUsername\<close> is called; when both lookups
  return an error, \<open>Create\<close> is called with the new user. \<open>CreateUser\<close> stops before
  \<open>Create\<close> only after a lookup that returned a user and a nil error, with ``email already
  exists'' or ``username already exists''.
\<close>

theorem failed_lookup_passes_uniqueness_check:
  assumes "CreateUser s email username firstName lastName w = (res, w')"
  shows "(Call_GetByEmail email eu (Some e1) \<in> set (new_calls w w') \<longrightarrow>
            (\<exists>uu e2. Call_GetByUsername username uu e2 \<in> set (new_calls w w')))
       \<and> (Call_GetByEmail email eu (Some e1) \<in> set (new_calls w w') \<and>
          Call_GetByUsername username uu (Some e2) \<in> set (new_calls w w') \<longrightarrow>
            (\<exists>r. Call_Create (fst (NewUser email username firstName lastName w)) r
                    \<in> set (new_calls w w')))
       \<and> ((\<forall>r. Call_Create (fst (NewUser email username firstName lastName w)) r
                    \<notin> set (new_calls w w')) \<longrightarrow>
            (\<exists>found.
               (new_calls w w' = [Call_GetByEmail email (Some found) None] \<and>
                res = (None, Some (errors_New ''email already exists''))) \<or>
               (\<exists>eu e1. new_calls w w' =
                            [Call_GetByEmail email eu e1, Call_GetByUsername username (Some found) None] \<and>
                          res = (None, Some (errors_New ''username already exists'')))))"
  using assms
proof (cases rule: CreateUser_cases)
  case (rejected err vs)
  from rejected(3) rejected(1,2) show ?thesis
    unfolding validation_run_def NewUser_fields by (elim disjE exE conjE; simp; blast?)
next
  case (create_failed err vs)
  from create_failed(3) create_failed(2) show ?thesis
    unfolding validation_run_def NewUser_fields by (elim disjE exE conjE; simp; blast?)
next
  case (dispatched vs ds ar)
  from dispatched(3) dispatched(2) show ?thesis
    unfolding validation_run_def NewUser_fields by (elim disjE exE conjE; simp; blast?)
next
  case (dispatch_failed vs ds err ar)
  from dispatch_failed(3) dispatch_failed(2) show ?thesis
    unfolding validation_run_def NewUser_fields by (elim disjE exE conjE; simp; blast?)
qed

text \<open>
  C10 on alice created a second time. While both lookups fail with a lost connection the
  validation passes and \<open>Create\<close> is called with the second alice, which the unique index
  of the table then refuses; while the lookups answer, the duplicate is reported by the
  validation.
\<close>

theorem failed_lookup_passes_uniqueness_check_witness:
  "Call_GetByEmail ''alice@example.com'' None (Some connection_lost)
     \<in> set (new_calls (example_world db_alice) (snd create_alice_again)) \<and>
   Call_GetByUsername ''alice'' None (Some connection_lost)
     \<in> set (new_calls (example_world db_alice) (snd create_alice_again)) \<and>
   (\<exists>r. Call_Create (fst (NewUser ''alice@example.com'' ''alice'' ''Alice'' ''Again'' (example_world db_alice))) r
           \<in> set (new_calls (example_world db_alice) (snd create_alice_again))) \<and>
   fst create_alice_again = (None, Some duplicate_key) \<and>
   rows (ext (snd create_alice_again)) = [alice] \<and>
   list_all (\<lambda>c. \<not> is_write c) (new_calls (example_world db_alice) (snd create_alice_duplicate)) \<and>
   new_calls (example_world db_alice) (snd create_alice_duplicate) =
     [Call_GetByEmail ''alice@example.com'' (Some alice) None] \<and>
   fst create_alice_duplicate = (None, Some (errors_New ''email already exists''))"
proof -
  have again: "CreateUser service_failing_lookups ''alice@example.com'' ''alice'' ''Alice'' ''Again''
                 (example_world db_alice) = (fst create_alice_again, snd create_alice_again)"
    by (simp add: create_alice_again_def)
  have dup: "CreateUser service_ok ''alice@example.com'' ''alice'' ''Alice'' ''Again''
                 (example_world db_alice) = (fst create_alice_duplicate, snd create_alice_duplicate)"
    by (simp add: create_alice_duplicate_def)
  have l1: "Call_GetByEmail ''alice@example.com'' None (Some connection_lost)
              \<in> set (new_calls (example_world db_alice) (snd create_alice_again))"
    and l2: "Call_GetByUsername ''alice'' None (Some connection_lost)
              \<in> set (new_calls (example_world db_alice) (snd create_alice_again))"
    by (simp_all add: new_calls_example create_alice_again_eq)
  have none: "\<forall>r. Call_Create (fst (NewUser ''alice@example.com'' ''alice'' ''Alice'' ''Again'' (example_world db_alice))) r
                \<notin> set (new_calls (example_world db_alice) (snd create_alice_duplicate))"
    by (simp add: new_calls_example create_alice_duplicate_eq)
  from failed_lookup_passes_uniqueness_check [OF again, of None connection_lost None connection_lost]
       failed_lookup_passes_uniqueness_check [OF dup, of None connection_lost None connection_lost]
       l1 l2 none
  show ?thesis
    by (simp add: new_calls_example create_alice_again_eq create_alice_duplicate_eq)
qed

end
